theory Spec2Isabelle
  imports Main "HOL-Library.Word" "HOL-Library.Multiset" "HOL-Library.Product_Lexorder"
    "HOL-Library.List_Lexorder"
begin

unbundle bit_operations_syntax

section \<open>Python values used by the handlers\<close>

text \<open>
  A Python \<open>str\<close> is a sequence of Unicode code points; \<open>len\<close> counts code points and
  \<open>s[:n]\<close> keeps the first \<open>n\<close> of them. Literals of the source are written with
  \<open>ustr_of\<close>.
\<close>

type_synonym ustr = "nat list"

definition ustr_of :: "string \<Rightarrow> ustr" where
  "ustr_of s = map of_char s"

text \<open>\<open>str.isspace\<close> on one code point: the white-space code points of CPython.\<close>

definition isspace :: "nat \<Rightarrow> bool" where
  "isspace c = ((9 \<le> c \<and> c \<le> 13) \<or> (28 \<le> c \<and> c \<le> 32) \<or> c = 133 \<or> c = 160 \<or>
     c = 5760 \<or> (8192 \<le> c \<and> c \<le> 8202) \<or> c = 8232 \<or> c = 8233 \<or> c = 8239 \<or>
     c = 8287 \<or> c = 12288)"

text \<open>\<open>str.strip()\<close>: leading and trailing white space removed.\<close>

definition strip :: "ustr \<Rightarrow> ustr" where
  "strip s = rev (dropWhile isspace (rev (dropWhile isspace s)))"

text \<open>
  \<open>int(s)\<close> on a string, as CPython 3.11 reads it. White space around the number is
  skipped: the ASCII white space of C (tab to carriage return, and the space), and the
  white space beyond ASCII; the separators U+001C to U+001F are not skipped. Then come
  an optional sign and the digits, single underscores allowed between two digits. A
  digit is any Unicode decimal digit: they come in runs of ten, \<open>digit_zeros\<close> lists
  the zero of each run. A number of more than 4300 digits is refused. \<open>None\<close> is the
  \<open>ValueError\<close>.
\<close>

definition int_space :: "nat \<Rightarrow> bool" where
  "int_space c = (isspace c \<and> \<not> (28 \<le> c \<and> c \<le> 31))"

definition digit_zeros :: "nat list" where
  "digit_zeros =
    [48, 1632, 1776, 1984, 2406, 2534, 2662, 2790, 2918, 3046, 3174, 3302, 3430, 3558,
     3664, 3792, 3872, 4160, 4240, 6112, 6160, 6470, 6608, 6784, 6800, 6992, 7088, 7232,
     7248, 42528, 43216, 43264, 43472, 43504, 43600, 44016, 65296, 66720, 68912, 69734,
     69872, 69942, 70096, 70384, 70736, 70864, 71248, 71360, 71472, 71904, 72016, 72784,
     73040, 73120, 92768, 92864, 93008, 120782, 120792, 120802, 120812, 120822, 123200,
     123632, 125264, 130032]"

definition digit_value :: "nat \<Rightarrow> nat option" where
  "digit_value c =
     (case find (\<lambda>z. z \<le> c \<and> c < z + 10) digit_zeros of
        None \<Rightarrow> None
      | Some z \<Rightarrow> Some (c - z))"

fun parse_digits :: "ustr \<Rightarrow> int \<Rightarrow> int option" where
  "parse_digits [] acc = Some acc"
| "parse_digits (c # cs) acc =
     (case digit_value c of
        Some v \<Rightarrow> parse_digits cs (10 * acc + int v)
      | None \<Rightarrow>
          if c = 95 \<and> cs \<noteq> [] \<and> digit_value (hd cs) \<noteq> None then parse_digits cs acc
          else None)"

definition parse_unsigned :: "ustr \<Rightarrow> int option" where
  "parse_unsigned s =
     (if s \<noteq> [] \<and> digit_value (hd s) \<noteq> None \<and> length (filter (\<lambda>c. c \<noteq> 95) s) \<le> 4300
      then parse_digits s 0 else None)"

definition py_int :: "ustr \<Rightarrow> int option" where
  "py_int s =
     (case rev (dropWhile int_space (rev (dropWhile int_space s))) of
        [] \<Rightarrow> None
      | c # cs \<Rightarrow>
          if c = 45 then map_option uminus (parse_unsigned cs)
          else if c = 43 then parse_unsigned cs
          else parse_unsigned (c # cs))"

text \<open>\<open>str(n)\<close> for an integer: its decimal digits, with a minus sign when negative.\<close>

function str_nat :: "nat \<Rightarrow> ustr" where
  "str_nat n = (if n < 10 then [48 + n] else str_nat (n div 10) @ [48 + n mod 10])"
  by pat_completeness auto
termination
  by (relation "measure id") auto

definition py_str :: "int \<Rightarrow> ustr" where
  "py_str i = (if i < 0 then 45 # str_nat (nat (- i)) else str_nat (nat i))"

text \<open>A parsed JSON document, as \<open>request.get_json()\<close> returns it.\<close>

datatype jval = JNull | JBool bool | JNum int | JStr ustr | JArr "jval list"
  | JObj "(ustr \<times> jval) list"

text \<open>
  What a handler can answer instead of its result: \<open>jsonify({'error': msg}), code\<close>,
  an \<open>abort(code)\<close> (of \<open>get_or_404\<close>, or of \<open>get_json\<close>), or an exception nobody
  catches, which the framework turns into a 500.
\<close>

datatype error = JsonError nat string | Abort nat | Uncaught

record request =
  x_user_id :: "ustr option"
  args :: "(ustr \<times> ustr) list"
  json :: "error + jval"

section \<open>Database models\<close>

text \<open>
  One record per model class, one field per column; a nullable column is an \<open>option\<close>.
  A \<open>DateTime\<close> is a number of microseconds. A table is the list of its rows in
  insertion order. The database is SQLite, the default of the application.
\<close>

record user =
  User_id :: int
  User_telegram_id :: int
  User_username :: "ustr option"
  User_first_name :: ustr
  User_last_name :: "ustr option"
  User_language_code :: "ustr option"
  User_photo_url :: "ustr option"
  User_bio :: "ustr option"
  User_created_at :: int
  User_updated_at :: int

record post =
  Post_id :: int
  Post_user_id :: int
  Post_content :: ustr
  Post_image_url :: "ustr option"
  Post_created_at :: int
  Post_updated_at :: int

record like =
  Like_id :: int
  Like_user_id :: int
  Like_post_id :: int
  Like_created_at :: int

record comment =
  Comment_id :: int
  Comment_user_id :: int
  Comment_post_id :: int
  Comment_content :: ustr
  Comment_created_at :: int
  Comment_updated_at :: int

record follow =
  Follow_id :: int
  Follow_follower_id :: int
  Follow_following_id :: int
  Follow_created_at :: int

record db =
  users :: "user list"
  posts :: "post list"
  likes :: "like list"
  comments :: "comment list"
  follows :: "follow list"

text \<open>
  The values a statement can bind. An integer parameter must fit 64 bits, and a text
  parameter must have a UTF-8 encoding: a surrogate code point has none. Binding
  another value raises (\<open>OverflowError\<close>, \<open>UnicodeEncodeError\<close>), and the statement
  is not run.
\<close>

definition sql_int :: "int \<Rightarrow> bool" where
  "sql_int n = (- (2 ^ 63) \<le> n \<and> n < 2 ^ 63)"

definition sql_text :: "ustr \<Rightarrow> bool" where
  "sql_text s = list_all (\<lambda>c. c < 0xD800 \<or> (0xDFFF < c \<and> c < 0x110000)) s"

text \<open>
  The primary key given to a new row of an \<open>Integer\<close> primary-key column: one more than
  the largest key in the table, 1 in an empty table. (When the largest key is the
  largest 64-bit integer the engine tries unused keys at random instead; the statements
  below are about tables whose next key fits 64 bits.)
\<close>

definition next_id :: "int list \<Rightarrow> int" where
  "next_id ids = (case ids of [] \<Rightarrow> 1 | k # ks \<Rightarrow> foldr max ks k + 1)"

text \<open>
  \<open>Model.query.get_or_404(k)\<close>: the key is bound, then the row is looked up.
  \<open>filter_by(...).first()\<close> and the rows behind the relationships \<open>post.author\<close> and
  \<open>comment.author\<close> are lookups with values the caller has checked or read from a row.
\<close>

definition get_or_404 :: "('a \<Rightarrow> int) \<Rightarrow> 'a list \<Rightarrow> int \<Rightarrow> error + 'a" where
  "get_or_404 key rows k =
     (if \<not> sql_int k then Inl Uncaught
      else case find (\<lambda>r. key r = k) rows of
        None \<Rightarrow> Inl (Abort 404)
      | Some r \<Rightarrow> Inr r)"

definition get_user :: "db \<Rightarrow> int \<Rightarrow> user option" where
  "get_user d k = find (\<lambda>r. User_id r = k) (users d)"

definition first_like :: "db \<Rightarrow> int \<Rightarrow> int \<Rightarrow> like option" where
  "first_like d uid pid = find (\<lambda>r. Like_user_id r = uid \<and> Like_post_id r = pid) (likes d)"

definition first_follow :: "db \<Rightarrow> int \<Rightarrow> int \<Rightarrow> follow option" where
  "first_follow d follower following =
     find (\<lambda>r. Follow_follower_id r = follower \<and> Follow_following_id r = following) (follows d)"

section \<open>Serializers\<close>

text \<open>The truth value of \<open>current_user_id\<close>: \<open>None\<close>, the empty header and 0 are false.\<close>

definition truthy :: "int option \<Rightarrow> bool" where
  "truthy cur = (case cur of None \<Rightarrow> False | Some c \<Rightarrow> c \<noteq> 0)"

definition or_empty :: "ustr option \<Rightarrow> ustr" where
  "or_empty s = (case s of None \<Rightarrow> [] | Some t \<Rightarrow> t)"

record user_view =
  uv_id :: int
  uv_telegram_id :: int
  uv_username :: "ustr option"
  uv_first_name :: ustr
  uv_last_name :: "ustr option"
  uv_full_name :: ustr
  uv_photo_url :: "ustr option"
  uv_bio :: ustr
  uv_following_count :: nat
  uv_followers_count :: nat
  uv_posts_count :: nat
  uv_is_following :: bool
  uv_created_at :: int
  uv_handle :: ustr

text \<open>
  \<open>serialize_user(user, current_user_id)\<close>. The query behind \<open>is_following\<close> runs for a
  true \<open>current_user_id\<close> and binds it.
\<close>

definition serialize_user :: "db \<Rightarrow> user \<Rightarrow> int option \<Rightarrow> error + user_view" where
  "serialize_user d usr cur =
     (let following_count = length (filter (\<lambda>f. Follow_follower_id f = User_id usr) (follows d));
          followers_count = length (filter (\<lambda>f. Follow_following_id f = User_id usr) (follows d));
          posts_count = length (filter (\<lambda>p. Post_user_id p = User_id usr) (posts d))
      in if truthy cur \<and> \<not> sql_int (the cur) then Inl Uncaught
         else
           Inr \<lparr> uv_id = User_id usr,
                 uv_telegram_id = User_telegram_id usr,
                 uv_username = User_username usr,
                 uv_first_name = User_first_name usr,
                 uv_last_name = User_last_name usr,
                 uv_full_name = strip (User_first_name usr @ [32] @ or_empty (User_last_name usr)),
                 uv_photo_url = User_photo_url usr,
                 uv_bio = or_empty (User_bio usr),
                 uv_following_count = following_count,
                 uv_followers_count = followers_count,
                 uv_posts_count = posts_count,
                 uv_is_following = (truthy cur \<and> first_follow d (the cur) (User_id usr) \<noteq> None),
                 uv_created_at = User_created_at usr,
                 uv_handle = (if or_empty (User_username usr) \<noteq> []
                              then 64 # or_empty (User_username usr)
                              else ustr_of ''@user'' @ py_str (User_telegram_id usr)) \<rparr>)"

record post_view =
  pv_id :: int
  pv_content :: ustr
  pv_image_url :: "ustr option"
  pv_author :: user_view
  pv_likes_count :: nat
  pv_comments_count :: nat
  pv_is_liked :: bool
  pv_created_at :: int
  pv_updated_at :: int

text \<open>
  \<open>serialize_post(post, current_user_id)\<close>. The query behind \<open>is_liked\<close> binds a true
  \<open>current_user_id\<close>. \<open>post.author\<close> is \<open>None\<close> when no user row has the post's
  \<open>user_id\<close>; reading its attributes then raises.
\<close>

definition serialize_post :: "db \<Rightarrow> post \<Rightarrow> int option \<Rightarrow> error + post_view" where
  "serialize_post d p cur =
     (let likes_count = length (filter (\<lambda>l. Like_post_id l = Post_id p) (likes d));
          comments_count = length (filter (\<lambda>c. Comment_post_id c = Post_id p) (comments d))
      in if truthy cur \<and> \<not> sql_int (the cur) then Inl Uncaught
         else case get_user d (Post_user_id p) of
           None \<Rightarrow> Inl Uncaught
         | Some author \<Rightarrow>
             (case serialize_user d author cur of
                Inl e \<Rightarrow> Inl e
              | Inr author_view \<Rightarrow>
                  Inr \<lparr> pv_id = Post_id p,
                        pv_content = Post_content p,
                        pv_image_url = Post_image_url p,
                        pv_author = author_view,
                        pv_likes_count = likes_count,
                        pv_comments_count = comments_count,
                        pv_is_liked = (truthy cur \<and> first_like d (the cur) (Post_id p) \<noteq> None),
                        pv_created_at = Post_created_at p,
                        pv_updated_at = Post_updated_at p \<rparr>))"

record comment_view =
  cv_id :: int
  cv_content :: ustr
  cv_author :: user_view
  cv_created_at :: int
  cv_updated_at :: int

definition serialize_comment :: "db \<Rightarrow> comment \<Rightarrow> int option \<Rightarrow> error + comment_view" where
  "serialize_comment d c cur =
     (case get_user d (Comment_user_id c) of
        None \<Rightarrow> Inl Uncaught
      | Some author \<Rightarrow>
          (case serialize_user d author cur of
             Inl e \<Rightarrow> Inl e
           | Inr author_view \<Rightarrow>
               Inr \<lparr> cv_id = Comment_id c,
                     cv_content = Comment_content c,
                     cv_author = author_view,
                     cv_created_at = Comment_created_at c,
                     cv_updated_at = Comment_updated_at c \<rparr>))"

text \<open>A list comprehension over a serializer stops at the first element that raises.\<close>

fun serialize_all :: "('a \<Rightarrow> error + 'b) \<Rightarrow> 'a list \<Rightarrow> error + 'b list" where
  "serialize_all f [] = Inr []"
| "serialize_all f (x # xs) =
     (case f x of
        Inl e \<Rightarrow> Inl e
      | Inr v \<Rightarrow> (case serialize_all f xs of Inl e \<Rightarrow> Inl e | Inr vs \<Rightarrow> Inr (v # vs)))"

section \<open>Follow toggle\<close>

datatype action = liked | unliked | followed | unfollowed

text \<open>
  \<open>toggle_follow(user_id)\<close>. The first argument is the clock read when the new row is
  written. The result is the response, or the error answered instead, and the database
  after the request.
\<close>

definition toggle_follow :: "int \<Rightarrow> int \<Rightarrow> request \<Rightarrow> db \<Rightarrow> (error + action \<times> user_view) \<times> db" where
  "toggle_follow now user_id req d =
     (if or_empty (x_user_id req) = [] then (Inl (JsonError 401 ''Authentication required''), d)
      else case py_int (or_empty (x_user_id req)) of
        None \<Rightarrow> (Inl Uncaught, d)
      | Some current_user_id \<Rightarrow>
          if current_user_id = user_id then (Inl (JsonError 400 ''Cannot follow yourself''), d)
          else case get_or_404 User_id (users d) user_id of
            Inl e \<Rightarrow> (Inl e, d)
          | Inr target_user \<Rightarrow>
              if \<not> sql_int current_user_id then (Inl Uncaught, d)
              else
                (let (act, d') =
                       (case first_follow d current_user_id user_id of
                          Some existing_follow \<Rightarrow>
                            (unfollowed,
                             d\<lparr>follows := filter (\<lambda>r. Follow_id r \<noteq> Follow_id existing_follow) (follows d)\<rparr>)
                        | None \<Rightarrow>
                            (followed,
                             d\<lparr>follows := follows d @
                                [\<lparr> Follow_id = next_id (map Follow_id (follows d)),
                                   Follow_follower_id = current_user_id,
                                   Follow_following_id = user_id,
                                   Follow_created_at = now \<rparr>]\<rparr>))
                 in (case serialize_user d' target_user (Some current_user_id) of
                       Inl e \<Rightarrow> Inl e
                     | Inr v \<Rightarrow> Inr (act, v), d')))"

section \<open>Reading the request\<close>

text \<open>
  The handlers that change the database answer 401 when the \<open>X-User-ID\<close> header is
  missing or empty, and convert it with \<open>int\<close> afterwards. The reading handlers convert
  it when it is present and not empty, and go on without a viewer otherwise.
\<close>

definition viewer_of :: "request \<Rightarrow> error + int option" where
  "viewer_of req =
     (if or_empty (x_user_id req) = [] then Inr None
      else case py_int (or_empty (x_user_id req)) of
        None \<Rightarrow> Inl Uncaught
      | Some v \<Rightarrow> Inr (Some v))"

text \<open>\<open>data.get(key)\<close>: only a JSON object has the method.\<close>

definition py_get :: "jval \<Rightarrow> string \<Rightarrow> error + jval option" where
  "py_get data key = (case data of JObj kvs \<Rightarrow> Inr (map_of kvs (ustr_of key)) | _ \<Rightarrow> Inl Uncaught)"

text \<open>\<open>data.get('content', '').strip()\<close>: only a string has the method.\<close>

definition content_of :: "jval \<Rightarrow> error + ustr" where
  "content_of data =
     (case py_get data ''content'' of
        Inl e \<Rightarrow> Inl e
      | Inr None \<Rightarrow> Inr (strip [])
      | Inr (Some (JStr s)) \<Rightarrow> Inr (strip s)
      | Inr (Some _) \<Rightarrow> Inl Uncaught)"

text \<open>
  What the \<open>Text\<close> column \<open>image_url\<close> holds after the commit: a text as it is, null
  for a missing or null value, an integer or truth value as its text (the type affinity
  of the column); a value that cannot be bound makes the commit raise.
\<close>

definition image_url_of :: "jval option \<Rightarrow> error + ustr option" where
  "image_url_of v =
     (case v of
        None \<Rightarrow> Inr None
      | Some JNull \<Rightarrow> Inr None
      | Some (JStr s) \<Rightarrow> if sql_text s then Inr (Some s) else Inl Uncaught
      | Some (JNum n) \<Rightarrow> if sql_int n then Inr (Some (py_str n)) else Inl Uncaught
      | Some (JBool b) \<Rightarrow> Inr (Some (if b then [49] else [48]))
      | Some _ \<Rightarrow> Inl Uncaught)"

section \<open>Posts and comments\<close>

text \<open>
  \<open>create_post()\<close> and \<open>create_comment(post_id)\<close>. The first two arguments are the two
  readings of the clock that fill \<open>created_at\<close> and \<open>updated_at\<close> of the new row. The
  commit binds the caller, the content and, for a post, the image reference; when it
  raises, nothing is written. The view is built after the commit.
\<close>

definition create_post :: "int \<Rightarrow> int \<Rightarrow> request \<Rightarrow> db \<Rightarrow> (error + post_view) \<times> db" where
  "create_post created updated req d =
     (if or_empty (x_user_id req) = [] then (Inl (JsonError 401 ''Authentication required''), d)
      else case json req of
        Inl e \<Rightarrow> (Inl e, d)
      | Inr data \<Rightarrow>
          (case content_of data of
             Inl e \<Rightarrow> (Inl e, d)
           | Inr content \<Rightarrow>
               (case py_get data ''image_url'' of
                  Inl e \<Rightarrow> (Inl e, d)
                | Inr image_url \<Rightarrow>
                    if content = [] \<or> length content > 280
                    then (Inl (JsonError 400 ''Content must be between 1 and 280 characters''), d)
                    else case py_int (or_empty (x_user_id req)) of
                      None \<Rightarrow> (Inl Uncaught, d)
                    | Some uid \<Rightarrow>
                        (case image_url_of image_url of
                           Inl e \<Rightarrow> (Inl e, d)
                         | Inr url \<Rightarrow>
                             if \<not> sql_int uid \<or> \<not> sql_text content then (Inl Uncaught, d)
                             else
                               (let p = \<lparr> Post_id = next_id (map Post_id (posts d)),
                                           Post_user_id = uid,
                                           Post_content = content,
                                           Post_image_url = url,
                                           Post_created_at = created,
                                           Post_updated_at = updated \<rparr>;
                                    d' = d\<lparr>posts := posts d @ [p]\<rparr>
                                in (serialize_post d' p (Some uid), d'))))))"

definition create_comment :: "int \<Rightarrow> int \<Rightarrow> int \<Rightarrow> request \<Rightarrow> db \<Rightarrow> (error + comment_view) \<times> db" where
  "create_comment created updated post_id req d =
     (if or_empty (x_user_id req) = [] then (Inl (JsonError 401 ''Authentication required''), d)
      else case json req of
        Inl e \<Rightarrow> (Inl e, d)
      | Inr data \<Rightarrow>
          (case content_of data of
             Inl e \<Rightarrow> (Inl e, d)
           | Inr content \<Rightarrow>
               if content = [] \<or> length content > 280
               then (Inl (JsonError 400 ''Content must be between 1 and 280 characters''), d)
               else case get_or_404 Post_id (posts d) post_id of
                 Inl e \<Rightarrow> (Inl e, d)
               | Inr p \<Rightarrow>
                   (case py_int (or_empty (x_user_id req)) of
                      None \<Rightarrow> (Inl Uncaught, d)
                    | Some uid \<Rightarrow>
                        if \<not> sql_int uid \<or> \<not> sql_text content then (Inl Uncaught, d)
                        else
                          (let c = \<lparr> Comment_id = next_id (map Comment_id (comments d)),
                                      Comment_user_id = uid,
                                      Comment_post_id = post_id,
                                      Comment_content = content,
                                      Comment_created_at = created,
                                      Comment_updated_at = updated \<rparr>;
                               d' = d\<lparr>comments := comments d @ [c]\<rparr>
                           in (serialize_comment d' c (Some uid), d')))))"

text \<open>
  \<open>order_by(created_at.desc())\<close>: newest first. Rows with equal times keep their table
  order (the database does not fix the order of ties).
\<close>

definition newest_first :: "('a \<Rightarrow> int) \<Rightarrow> 'a list \<Rightarrow> 'a list" where
  "newest_first created_at rows = sort_key (\<lambda>r. - created_at r) rows"

definition get_comments :: "int \<Rightarrow> request \<Rightarrow> db \<Rightarrow> error + post_view \<times> comment_view list" where
  "get_comments post_id req d =
     (case viewer_of req of
        Inl e \<Rightarrow> Inl e
      | Inr cur \<Rightarrow>
          (case get_or_404 Post_id (posts d) post_id of
             Inl e \<Rightarrow> Inl e
           | Inr p \<Rightarrow>
               (let cs = newest_first Comment_created_at
                           (filter (\<lambda>c. Comment_post_id c = post_id) (comments d))
                in case serialize_post d p cur of
                     Inl e \<Rightarrow> Inl e
                   | Inr pv \<Rightarrow>
                       (case serialize_all (\<lambda>c. serialize_comment d c cur) cs of
                          Inl e \<Rightarrow> Inl e
                        | Inr cvs \<Rightarrow> Inr (pv, cvs)))))"

section \<open>Like toggle\<close>

record like_response =
  lr_action :: action
  lr_likes_count :: nat
  lr_is_liked :: bool

definition toggle_like :: "int \<Rightarrow> int \<Rightarrow> request \<Rightarrow> db \<Rightarrow> (error + like_response) \<times> db" where
  "toggle_like now post_id req d =
     (if or_empty (x_user_id req) = [] then (Inl (JsonError 401 ''Authentication required''), d)
      else case py_int (or_empty (x_user_id req)) of
        None \<Rightarrow> (Inl Uncaught, d)
      | Some current_user_id \<Rightarrow>
          (case get_or_404 Post_id (posts d) post_id of
             Inl e \<Rightarrow> (Inl e, d)
           | Inr p \<Rightarrow>
               if \<not> sql_int current_user_id then (Inl Uncaught, d)
               else
                 (let (act, d') =
                        (case first_like d current_user_id post_id of
                           Some existing_like \<Rightarrow>
                             (unliked, d\<lparr>likes := filter (\<lambda>r. Like_id r \<noteq> Like_id existing_like) (likes d)\<rparr>)
                         | None \<Rightarrow>
                             (liked, d\<lparr>likes := likes d @
                                [\<lparr> Like_id = next_id (map Like_id (likes d)),
                                   Like_user_id = current_user_id,
                                   Like_post_id = post_id,
                                   Like_created_at = now \<rparr>]\<rparr>));
                      likes_count = length (filter (\<lambda>l. Like_post_id l = post_id) (likes d'))
                  in (Inr \<lparr> lr_action = act, lr_likes_count = likes_count,
                             lr_is_liked = (act = liked) \<rparr>, d'))))"

section \<open>Profile update\<close>

text \<open>\<open>k in s\<close> for two strings: \<open>k\<close> occurs in \<open>s\<close> as a substring.\<close>

fun occurs_in :: "ustr \<Rightarrow> ustr \<Rightarrow> bool" where
  "occurs_in k [] = (k = [])"
| "occurs_in k (c # cs) = (take (length k) (c # cs) = k \<or> occurs_in k cs)"

text \<open>
  \<open>'bio' in data\<close>: a key of an object, an element of a list, a substring of a string;
  the other values are not containers and the test raises.
\<close>

definition has_bio :: "jval \<Rightarrow> error + bool" where
  "has_bio data =
     (case data of
        JObj kvs \<Rightarrow> Inr (map_of kvs (ustr_of ''bio'') \<noteq> None)
      | JArr xs \<Rightarrow> Inr (JStr (ustr_of ''bio'') \<in> set xs)
      | JStr s \<Rightarrow> Inr (occurs_in (ustr_of ''bio'') s)
      | _ \<Rightarrow> Inl Uncaught)"

text \<open>
  \<open>data['bio'][:160]\<close>, as the \<open>bio\<close> column can hold it: only an object can be indexed
  by a string, and only a string value survives the slice and the commit, when its
  first 160 characters can be bound.
\<close>

definition bio_of :: "jval \<Rightarrow> error + ustr" where
  "bio_of data =
     (case data of
        JObj kvs \<Rightarrow>
          (case map_of kvs (ustr_of ''bio'') of
             Some (JStr s) \<Rightarrow> if sql_text (take 160 s) then Inr (take 160 s) else Inl Uncaught
           | _ \<Rightarrow> Inl Uncaught)
      | _ \<Rightarrow> Inl Uncaught)"

definition update_user :: "int \<Rightarrow> (user \<Rightarrow> user) \<Rightarrow> db \<Rightarrow> db" where
  "update_user uid f d = d\<lparr>users := map (\<lambda>r. if User_id r = uid then f r else r) (users d)\<rparr>"

text \<open>
  \<open>update_profile()\<close>. The first argument is the clock read for \<open>updated_at\<close>. The view
  is built after the commit, from the updated row.
\<close>

definition update_profile :: "int \<Rightarrow> request \<Rightarrow> db \<Rightarrow> (error + user_view) \<times> db" where
  "update_profile now req d =
     (if or_empty (x_user_id req) = [] then (Inl (JsonError 401 ''Authentication required''), d)
      else case py_int (or_empty (x_user_id req)) of
        None \<Rightarrow> (Inl Uncaught, d)
      | Some uid \<Rightarrow>
          (case get_or_404 User_id (users d) uid of
             Inl e \<Rightarrow> (Inl e, d)
           | Inr usr \<Rightarrow>
               (case json req of
                  Inl e \<Rightarrow> (Inl e, d)
                | Inr data \<Rightarrow>
                    (case has_bio data of
                       Inl e \<Rightarrow> (Inl e, d)
                     | Inr True \<Rightarrow>
                         (case bio_of data of
                            Inl e \<Rightarrow> (Inl e, d)
                          | Inr b \<Rightarrow>
                              (let usr' = usr\<lparr>User_bio := Some b, User_updated_at := now\<rparr>;
                                   d' = update_user uid (\<lambda>r. r\<lparr>User_bio := Some b, User_updated_at := now\<rparr>) d
                               in (serialize_user d' usr' (Some uid), d')))
                     | Inr False \<Rightarrow>
                         (let usr' = usr\<lparr>User_updated_at := now\<rparr>;
                              d' = update_user uid (\<lambda>r. r\<lparr>User_updated_at := now\<rparr>) d
                          in (serialize_user d' usr' (Some uid), d'))))))"

section \<open>Feed\<close>

text \<open>
  The trending query: \<open>Post.query.join(Like)\<close> pairs every post with each of its likes
  (an inner join on \<open>Like.post_id = Post.id\<close>), \<open>group_by(Post.id)\<close> keeps one row per
  post id of the join with the number of joined rows as \<open>count(Like.id)\<close>, and the
  groups are ordered by that count, largest first, then by creation time, newest first.
\<close>

definition join_likes :: "db \<Rightarrow> (post \<times> like) list" where
  "join_likes d =
     concat (map (\<lambda>p. map (Pair p) (filter (\<lambda>l. Like_post_id l = Post_id p) (likes d))) (posts d))"

definition group_by_post :: "(post \<times> like) list \<Rightarrow> (post \<times> nat) list" where
  "group_by_post j =
     map (\<lambda>k. (fst (hd (filter (\<lambda>(p, l). Post_id p = k) j)),
               length (filter (\<lambda>(p, l). Post_id p = k) j)))
         (remdups (map (\<lambda>(p, l). Post_id p) j))"

definition trending_query :: "db \<Rightarrow> post list" where
  "trending_query d =
     map fst (sort_key (\<lambda>(p, n). (- int n, - Post_created_at p)) (group_by_post (join_likes d)))"

text \<open>
  \<open>query.paginate(page=page, per_page=per_page, error_out=False)\<close> of Flask-SQLAlchemy:
  a page below 1 becomes 1 and a page size below 1 becomes 20, the items are the slice
  of the ordered rows, and the flags follow from the total. The size and the offset of
  the slice are bound as \<open>LIMIT\<close> and \<open>OFFSET\<close>.
\<close>

record 'a pagination =
  pg_items :: "'a list"
  pg_total :: nat
  pg_pages :: nat
  pg_has_next :: bool
  pg_has_prev :: bool

definition paginate :: "int \<Rightarrow> int \<Rightarrow> 'a list \<Rightarrow> error + 'a pagination" where
  "paginate page per_page rows =
     (let pg = (if page < 1 then 1 else nat page);
          pp = (if per_page < 1 then 20 else nat per_page);
          total = length rows;
          pages = (if total = 0 then 0 else (total + pp - 1) div pp)
      in if \<not> sql_int (int pp) \<or> \<not> sql_int (int ((pg - 1) * pp)) then Inl Uncaught
         else
           Inr \<lparr> pg_items = take pp (drop ((pg - 1) * pp) rows),
                 pg_total = total,
                 pg_pages = pages,
                 pg_has_next = (pg < pages),
                 pg_has_prev = (pg > 1) \<rparr>)"

text \<open>\<open>int(request.args.get(key, default))\<close>.\<close>

definition int_arg :: "request \<Rightarrow> string \<Rightarrow> int \<Rightarrow> error + int" where
  "int_arg req key dflt =
     (case map_of (args req) (ustr_of key) of
        None \<Rightarrow> Inr dflt
      | Some s \<Rightarrow> (case py_int s of None \<Rightarrow> Inl Uncaught | Some n \<Rightarrow> Inr n))"

definition filter_arg :: "request \<Rightarrow> ustr" where
  "filter_arg req = (case map_of (args req) (ustr_of ''filter'') of None \<Rightarrow> ustr_of ''latest'' | Some s \<Rightarrow> s)"

text \<open>
  The query of the feed. The \<open>following\<close> branch binds the viewer, and lists the
  accounts the viewer follows in an \<open>IN\<close> clause (taken here within the number of
  parameters a statement may have).
\<close>

definition feed_query :: "ustr \<Rightarrow> int option \<Rightarrow> db \<Rightarrow> error + post list" where
  "feed_query filter_type cur d =
     (if filter_type = ustr_of ''following'' \<and> truthy cur then
        (if \<not> sql_int (the cur) then Inl Uncaught
         else
           (let following_ids = map Follow_following_id
                  (filter (\<lambda>f. Follow_follower_id f = the cur) (follows d))
            in Inr (newest_first Post_created_at
                      (filter (\<lambda>p. Post_user_id p \<in> set following_ids) (posts d)))))
      else if filter_type = ustr_of ''trending'' then Inr (trending_query d)
      else Inr (newest_first Post_created_at (posts d)))"

record feed_response =
  fr_posts :: "post_view list"
  fr_has_next :: bool
  fr_has_prev :: bool
  fr_page :: int
  fr_pages :: nat
  fr_total :: nat

definition get_posts :: "request \<Rightarrow> db \<Rightarrow> error + feed_response" where
  "get_posts req d =
     (case viewer_of req of
        Inl e \<Rightarrow> Inl e
      | Inr cur \<Rightarrow>
          (case int_arg req ''page'' 1 of
             Inl e \<Rightarrow> Inl e
           | Inr page \<Rightarrow>
               (case int_arg req ''per_page'' 20 of
                  Inl e \<Rightarrow> Inl e
                | Inr per_page \<Rightarrow>
                    (case feed_query (filter_arg req) cur d of
                       Inl e \<Rightarrow> Inl e
                     | Inr rows \<Rightarrow>
                         (case paginate page per_page rows of
                            Inl e \<Rightarrow> Inl e
                          | Inr pg \<Rightarrow>
                              (case serialize_all (\<lambda>p. serialize_post d p cur) (pg_items pg) of
                                 Inl e \<Rightarrow> Inl e
                               | Inr views \<Rightarrow>
                                   Inr \<lparr> fr_posts = views,
                                         fr_has_next = pg_has_next pg,
                                         fr_has_prev = pg_has_prev pg,
                                         fr_page = page,
                                         fr_pages = pg_pages pg,
                                         fr_total = pg_total pg \<rparr>))))))"

section \<open>SHA-256 and HMAC\<close>

text \<open>
  \<open>hashlib.sha256\<close> (FIPS 180-4) on byte strings: the message is padded to a multiple
  of 64 bytes and each block is compressed into a state of eight 32-bit words.
\<close>

type_synonym byte = "8 word"
type_synonym w32 = "32 word"

definition rotr :: "nat \<Rightarrow> w32 \<Rightarrow> w32" where
  "rotr n x = (drop_bit n x) OR (push_bit (32 - n) x)"

definition Ch :: "w32 \<Rightarrow> w32 \<Rightarrow> w32 \<Rightarrow> w32" where
  "Ch x y z = (x AND y) XOR (NOT x AND z)"
definition Maj :: "w32 \<Rightarrow> w32 \<Rightarrow> w32 \<Rightarrow> w32" where
  "Maj x y z = (x AND y) XOR (x AND z) XOR (y AND z)"
definition Sigma0 :: "w32 \<Rightarrow> w32" where
  "Sigma0 x = rotr 2 x XOR rotr 13 x XOR rotr 22 x"
definition Sigma1 :: "w32 \<Rightarrow> w32" where
  "Sigma1 x = rotr 6 x XOR rotr 11 x XOR rotr 25 x"
definition sigma0 :: "w32 \<Rightarrow> w32" where
  "sigma0 x = rotr 7 x XOR rotr 18 x XOR drop_bit 3 x"
definition sigma1 :: "w32 \<Rightarrow> w32" where
  "sigma1 x = rotr 17 x XOR rotr 19 x XOR drop_bit 10 x"

text \<open>
  The round constants (the first 32 bits of the fractional parts of the cube roots of
  the first 64 primes) and the initial state (of the square roots of the first 8).
\<close>

definition K256 :: "w32 list" where
  "K256 =
    [1116352408, 1899447441, 3049323471, 3921009573, 961987163, 1508970993,
     2453635748, 2870763221, 3624381080, 310598401, 607225278, 1426881987,
     1925078388, 2162078206, 2614888103, 3248222580, 3835390401, 4022224774,
     264347078, 604807628, 770255983, 1249150122, 1555081692, 1996064986,
     2554220882, 2821834349, 2952996808, 3210313671, 3336571891, 3584528711,
     113926993, 338241895, 666307205, 773529912, 1294757372, 1396182291,
     1695183700, 1986661051, 2177026350, 2456956037, 2730485921, 2820302411,
     3259730800, 3345764771, 3516065817, 3600352804, 4094571909, 275423344,
     430227734, 506948616, 659060556, 883997877, 958139571, 1322822218,
     1537002063, 1747873779, 1955562222, 2024104815, 2227730452, 2361852424,
     2428436474, 2756734187, 3204031479, 3329325298]"

definition H256 :: "w32 \<times> w32 \<times> w32 \<times> w32 \<times> w32 \<times> w32 \<times> w32 \<times> w32" where
  "H256 = (1779033703, 3144134277, 1013904242, 2773480762, 1359893119, 2600822924, 528734635, 1541459225)"

fun be32 :: "byte list \<Rightarrow> w32 list" where
  "be32 (a # b # c # d # r) =
     (push_bit 24 (ucast a) OR push_bit 16 (ucast b) OR push_bit 8 (ucast c) OR ucast d) # be32 r"
| "be32 _ = []"



fun schedule :: "nat \<Rightarrow> w32 list \<Rightarrow> w32 list" where
  "schedule 0 ws = ws"
| "schedule (Suc n) ws =
     schedule n ((sigma1 (ws ! 1) + ws ! 6 + sigma0 (ws ! 14) + ws ! 15) # ws)"

type_synonym hstate = "w32 \<times> w32 \<times> w32 \<times> w32 \<times> w32 \<times> w32 \<times> w32 \<times> w32"

definition round256 :: "hstate \<Rightarrow> (w32 \<times> w32) \<Rightarrow> hstate" where
  "round256 = (\<lambda>(a, b, c, d, e, f, g, h) (k, w).
     (let t1 = h + Sigma1 e + Ch e f g + k + w;
          t2 = Sigma0 a + Maj a b c
      in (t1 + t2, a, b, c, d + t1, e, f, g)))"

definition add_state :: "hstate \<Rightarrow> hstate \<Rightarrow> hstate" where
  "add_state = (\<lambda>(a, b, c, d, e, f, g, h) (a', b', c', d', e', f', g', h').
     (a + a', b + b', c + c', d + d', e + e', f + f', g + g', h + h'))"

definition compress :: "hstate \<Rightarrow> byte list \<Rightarrow> hstate" where
  "compress hs block =
     (let ws = rev (schedule 48 (rev (be32 block)))
      in add_state hs (foldl round256 hs (zip K256 ws)))"

fun blocks :: "nat \<Rightarrow> byte list \<Rightarrow> byte list list" where
  "blocks 0 bs = []"
| "blocks (Suc n) bs = take 64 bs # blocks n (drop 64 bs)"

definition word_bytes :: "w32 \<Rightarrow> byte list" where
  "word_bytes w = [ucast (drop_bit 24 w), ucast (drop_bit 16 w), ucast (drop_bit 8 w), ucast w]"

definition length_bytes :: "nat \<Rightarrow> byte list" where
  "length_bytes n = (let bits = (of_nat n * 8 :: 64 word)
     in map (\<lambda>i. ucast (drop_bit (8 * i) bits)) [7, 6, 5, 4, 3, 2, 1, 0])"

definition pad :: "byte list \<Rightarrow> byte list" where
  "pad m = m @ [0x80] @ replicate ((119 - length m mod 64) mod 64) 0 @ length_bytes (length m)"

definition state_words :: "hstate \<Rightarrow> w32 list" where
  "state_words = (\<lambda>(a, b, c, d, e, f, g, h). [a, b, c, d, e, f, g, h])"

definition sha256 :: "byte list \<Rightarrow> byte list" where
  "sha256 m = (let p = pad m in
     concat (map word_bytes (state_words (foldl compress H256 (blocks (length p div 64) p)))))"

text \<open>\<open>hmac.new(key, msg, hashlib.sha256).digest()\<close> (RFC 2104, block size 64).\<close>

definition hmac_sha256 :: "byte list \<Rightarrow> byte list \<Rightarrow> byte list" where
  "hmac_sha256 key msg =
     (let k0 = (if length key > 64 then sha256 key else key);
          k = k0 @ replicate (64 - length k0) 0
      in sha256 (map (\<lambda>b. b XOR 0x5c) k @ sha256 (map (\<lambda>b. b XOR 0x36) k @ msg)))"

text \<open>\<open>.hexdigest()\<close>: two lowercase hexadecimal digits per byte.\<close>

definition hexdigit :: "nat \<Rightarrow> nat" where
  "hexdigit n = (if n < 10 then 48 + n else 87 + n)"

definition hexdigest :: "byte list \<Rightarrow> ustr" where
  "hexdigest bs = concat (map (\<lambda>b. [hexdigit (unat b div 16), hexdigit (unat b mod 16)]) bs)"

section \<open>Strings and bytes\<close>

text \<open>
  \<open>s.encode()\<close>: the UTF-8 bytes of a string. A surrogate code point cannot be
  encoded (\<open>UnicodeEncodeError\<close>).
\<close>

definition encode_char :: "nat \<Rightarrow> nat list option" where
  "encode_char c =
     (if c < 0x80 then Some [c]
      else if c < 0x800 then Some [0xC0 + c div 64, 0x80 + c mod 64]
      else if 0xD800 \<le> c \<and> c \<le> 0xDFFF then None
      else if c < 0x10000 then Some [0xE0 + c div 4096, 0x80 + c div 64 mod 64, 0x80 + c mod 64]
      else if c < 0x110000 then
        Some [0xF0 + c div 262144, 0x80 + c div 4096 mod 64, 0x80 + c div 64 mod 64, 0x80 + c mod 64]
      else None)"

fun encode :: "ustr \<Rightarrow> byte list option" where
  "encode [] = Some []"
| "encode (c # cs) =
     (case encode_char c of
        None \<Rightarrow> None
      | Some bs \<Rightarrow> (case encode cs of None \<Rightarrow> None | Some r \<Rightarrow> Some (map of_nat bs @ r)))"

text \<open>
  \<open>bytes.decode('utf-8', 'replace')\<close>. \<open>utf8_step c bs\<close> reads the sequence that starts
  with the byte \<open>c\<close> and goes on in \<open>bs\<close>: the code point, and how many bytes of \<open>bs\<close>
  it takes. A sequence that is not well formed becomes U+FFFD and takes the bytes up
  to the one that breaks it.
\<close>

definition cont :: "nat \<Rightarrow> bool" where
  "cont b = (0x80 \<le> b \<and> b \<le> 0xBF)"

definition utf8_step :: "nat \<Rightarrow> nat list \<Rightarrow> nat \<times> nat" where
  "utf8_step c bs =
     (if c < 0x80 then (c, 0)
      else if c < 0xC2 \<or> 0xF4 < c then (0xFFFD, 0)
      else if c < 0xE0 then
        (case bs of
           [] \<Rightarrow> (0xFFFD, 0)
         | b1 # _ \<Rightarrow> if cont b1 then ((c - 0xC0) * 64 + (b1 - 0x80), 1) else (0xFFFD, 0))
      else if c < 0xF0 then
        (case bs of
           [] \<Rightarrow> (0xFFFD, 0)
         | b1 # r1 \<Rightarrow>
             if \<not> ((if c = 0xE0 then 0xA0 else 0x80) \<le> b1 \<and> b1 \<le> (if c = 0xED then 0x9F else 0xBF))
             then (0xFFFD, 0)
             else (case r1 of
                     [] \<Rightarrow> (0xFFFD, 1)
                   | b2 # _ \<Rightarrow>
                       if cont b2
                       then ((c - 0xE0) * 4096 + (b1 - 0x80) * 64 + (b2 - 0x80), 2)
                       else (0xFFFD, 1)))
      else
        (case bs of
           [] \<Rightarrow> (0xFFFD, 0)
         | b1 # r1 \<Rightarrow>
             if \<not> ((if c = 0xF0 then 0x90 else 0x80) \<le> b1 \<and> b1 \<le> (if c = 0xF4 then 0x8F else 0xBF))
             then (0xFFFD, 0)
             else (case r1 of
                     [] \<Rightarrow> (0xFFFD, 1)
                   | b2 # r2 \<Rightarrow>
                       if \<not> cont b2 then (0xFFFD, 1)
                       else (case r2 of
                               [] \<Rightarrow> (0xFFFD, 2)
                             | b3 # _ \<Rightarrow>
                                 if cont b3
                                 then ((c - 0xF0) * 262144 + (b1 - 0x80) * 4096
                                         + (b2 - 0x80) * 64 + (b3 - 0x80), 3)
                                 else (0xFFFD, 2)))))"

function decode_utf8 :: "nat list \<Rightarrow> ustr" where
  "decode_utf8 [] = []"
| "decode_utf8 (c # bs) = fst (utf8_step c bs) # decode_utf8 (drop (snd (utf8_step c bs)) bs)"
  by pat_completeness auto
termination
  by (relation "measure length") auto

section \<open>Query strings\<close>

text \<open>
  \<open>urllib.parse.unquote\<close>: a string without \<open>%\<close> is returned as it is; otherwise every
  run of ASCII characters has its \<open>%XX\<close> escapes replaced by the bytes they name and is
  decoded as UTF-8, and the other characters stay.
\<close>

definition ishex :: "nat \<Rightarrow> bool" where
  "ishex c = ((48 \<le> c \<and> c \<le> 57) \<or> (65 \<le> c \<and> c \<le> 70) \<or> (97 \<le> c \<and> c \<le> 102))"

definition hexval :: "nat \<Rightarrow> nat" where
  "hexval c = (if c \<le> 57 then c - 48 else if c \<le> 70 then c - 55 else c - 87)"

fun unquote_to_bytes :: "ustr \<Rightarrow> nat list" where
  "unquote_to_bytes (c # a # b # cs) =
     (if c = 37 \<and> ishex a \<and> ishex b then (16 * hexval a + hexval b) # unquote_to_bytes cs
      else c # unquote_to_bytes (a # b # cs))"
| "unquote_to_bytes cs = cs"

function unquote_runs :: "ustr \<Rightarrow> ustr" where
  "unquote_runs [] = []"
| "unquote_runs (c # cs) =
     (if c < 128
      then decode_utf8 (unquote_to_bytes (c # takeWhile (\<lambda>x. x < 128) cs))
             @ unquote_runs (dropWhile (\<lambda>x. x < 128) cs)
      else c # unquote_runs cs)"
  by pat_completeness auto
termination
  by (relation "measure length") (auto simp: length_dropWhile_le less_Suc_eq_le)

definition unquote :: "ustr \<Rightarrow> ustr" where
  "unquote s = (if 37 \<in> set s then unquote_runs s else s)"

text \<open>\<open>s.split(sep)\<close> for a separator of one character.\<close>

fun split_on :: "nat \<Rightarrow> ustr \<Rightarrow> ustr list" where
  "split_on sep [] = [[]]"
| "split_on sep (c # cs) =
     (let parts = split_on sep cs
      in if c = sep then [] # parts else (c # hd parts) # tl parts)"

text \<open>\<open>sep.join(parts)\<close>.\<close>

fun join :: "ustr \<Rightarrow> ustr list \<Rightarrow> ustr" where
  "join sep [] = []"
| "join sep [x] = x"
| "join sep (x # y # ys) = x @ sep @ join sep (y # ys)"

definition plus_to_space :: "ustr \<Rightarrow> ustr" where
  "plus_to_space s = map (\<lambda>c. if c = 43 then 32 else c) s"

text \<open>
  One field of \<open>urllib.parse.parse_qsl\<close> (blank values are not kept, parsing is not
  strict): a field without \<open>=\<close>, or with nothing after its first \<open>=\<close>, gives no pair.
\<close>

definition parse_field :: "ustr \<Rightarrow> (ustr \<times> ustr) option" where
  "parse_field name_value =
     (if 61 \<notin> set name_value then None
      else (let name = takeWhile (\<lambda>c. c \<noteq> 61) name_value;
                val = tl (dropWhile (\<lambda>c. c \<noteq> 61) name_value)
            in if val = [] then None
               else Some (unquote (plus_to_space name), unquote (plus_to_space val))))"

definition parse_qsl :: "ustr \<Rightarrow> (ustr \<times> ustr) list" where
  "parse_qsl qs = List.map_filter parse_field (split_on 38 qs)"

text \<open>
  \<open>urllib.parse.parse_qs\<close>: a dictionary from each name to the list of its values. The
  dictionary is the list of its items in insertion order.
\<close>

fun dict_append :: "(ustr \<times> ustr list) list \<Rightarrow> ustr \<Rightarrow> ustr \<Rightarrow> (ustr \<times> ustr list) list" where
  "dict_append [] name val = [(name, [val])]"
| "dict_append ((k, vs) # r) name val =
     (if k = name then (k, vs @ [val]) # r else (k, vs) # dict_append r name val)"

definition parse_qs :: "ustr \<Rightarrow> (ustr \<times> ustr list) list" where
  "parse_qs qs = foldl (\<lambda>dict (name, val). dict_append dict name val) [] (parse_qsl qs)"

text \<open>\<open>parsed_data.get(key, [None])[0]\<close>.\<close>

definition first_value :: "(ustr \<times> ustr list) list \<Rightarrow> string \<Rightarrow> ustr option" where
  "first_value parsed_data key =
     (case map_of parsed_data (ustr_of key) of None \<Rightarrow> None | Some vs \<Rightarrow> Some (hd vs))"

section \<open>Telegram WebApp authentication\<close>

text \<open>
  \<open>validate_telegram_data(init_data, bot_token)\<close>. The first argument stands for
  \<open>json.loads\<close>: the Python value a text parses to, and \<open>None\<close> when \<open>json.loads\<close>
  raises or when the text is \<open>null\<close>, whose value is Python's \<open>None\<close>. The result
  \<open>None\<close> is Python's \<open>None\<close>. Every exception inside the function is caught and
  answered with \<open>None\<close>.
\<close>

definition validate_telegram_data :: "(ustr \<Rightarrow> 'v option) \<Rightarrow> ustr \<Rightarrow> ustr \<Rightarrow> 'v option" where
  "validate_telegram_data json_loads init_data bot_token =
     (let parsed_data = parse_qs init_data;
          received_hash = first_value parsed_data ''hash''
      in if or_empty received_hash = [] then None
         else
           (let data_to_check = map (\<lambda>(key, values). key @ [61] @ hd values)
                                    (filter (\<lambda>(key, values). key \<noteq> ustr_of ''hash'') parsed_data);
                data_check_string = join [10] (sort data_to_check)
            in case encode bot_token of
                 None \<Rightarrow> None
               | Some token_bytes \<Rightarrow>
                   (let secret_key = hmac_sha256 (map of_nat (ustr_of ''WebAppData'')) token_bytes
                    in case encode data_check_string of
                         None \<Rightarrow> None
                       | Some check_bytes \<Rightarrow>
                           (let calculated_hash = hexdigest (hmac_sha256 secret_key check_bytes)
                            in if Some calculated_hash = received_hash then
                                 (case first_value parsed_data ''user'' of
                                    None \<Rightarrow> None
                                  | Some user_data \<Rightarrow>
                                      if user_data = [] then None
                                      else json_loads (unquote user_data))
                               else None))))"

section \<open>Sample data\<close>

definition alice :: user where
  "alice = \<lparr> User_id = 1, User_telegram_id = 1001, User_username = Some (ustr_of ''alice''),
             User_first_name = ustr_of ''Alice'', User_last_name = None,
             User_language_code = Some (ustr_of ''en''), User_photo_url = None,
             User_bio = Some [], User_created_at = 10, User_updated_at = 10 \<rparr>"

definition bob :: user where
  "bob = \<lparr> User_id = 2, User_telegram_id = 1002, User_username = None,
           User_first_name = ustr_of ''Bob'', User_last_name = Some (ustr_of ''Stone''),
           User_language_code = None, User_photo_url = None,
           User_bio = Some (ustr_of ''hi''), User_created_at = 20, User_updated_at = 20 \<rparr>"

definition post1 :: post where
  "post1 = \<lparr> Post_id = 1, Post_user_id = 1, Post_content = ustr_of ''first'',
             Post_image_url = None, Post_created_at = 100, Post_updated_at = 100 \<rparr>"

definition post2 :: post where
  "post2 = \<lparr> Post_id = 2, Post_user_id = 2, Post_content = ustr_of ''second'',
             Post_image_url = None, Post_created_at = 200, Post_updated_at = 200 \<rparr>"

definition post3 :: post where
  "post3 = \<lparr> Post_id = 3, Post_user_id = 1, Post_content = ustr_of ''third'',
             Post_image_url = None, Post_created_at = 300, Post_updated_at = 300 \<rparr>"

definition comment1 :: comment where
  "comment1 = \<lparr> Comment_id = 1, Comment_user_id = 2, Comment_post_id = 1,
                Comment_content = ustr_of ''nice'', Comment_created_at = 400,
                Comment_updated_at = 400 \<rparr>"

definition comment2 :: comment where
  "comment2 = \<lparr> Comment_id = 2, Comment_user_id = 1, Comment_post_id = 1,
                Comment_content = ustr_of ''thanks'', Comment_created_at = 500,
                Comment_updated_at = 500 \<rparr>"

definition like1 :: like where
  "like1 = \<lparr> Like_id = 1, Like_user_id = 2, Like_post_id = 1, Like_created_at = 600 \<rparr>"

definition like2 :: like where
  "like2 = \<lparr> Like_id = 2, Like_user_id = 1, Like_post_id = 2, Like_created_at = 610 \<rparr>"

definition like3 :: like where
  "like3 = \<lparr> Like_id = 3, Like_user_id = 2, Like_post_id = 2, Like_created_at = 620 \<rparr>"

definition sample_db :: db where
  "sample_db = \<lparr> users = [alice, bob], posts = [post1, post2, post3],
                  likes = [like1, like2, like3], comments = [comment1, comment2],
                  follows = [] \<rparr>"

text \<open>A request of the account with id 1, with the given query arguments and body.\<close>

definition request_of_alice :: "(ustr \<times> ustr) list \<Rightarrow> jval \<Rightarrow> request" where
  "request_of_alice as body = \<lparr> x_user_id = Some (ustr_of ''1''), args = as, json = Inr body \<rparr>"

text \<open>A request without the \<open>X-User-ID\<close> header.\<close>

definition anonymous_request :: "(ustr \<times> ustr) list \<Rightarrow> jval \<Rightarrow> request" where
  "anonymous_request as body = \<lparr> x_user_id = None, args = as, json = Inr body \<rparr>"

section \<open>Notions used in the statements\<close>

text \<open>The answer to a body that is empty after trimming, or longer than 280 characters.\<close>

definition content_error :: error where
  "content_error = JsonError 400 ''Content must be between 1 and 280 characters''"

text \<open>The rows the handlers write.\<close>

definition new_post :: "int \<Rightarrow> int \<Rightarrow> int \<Rightarrow> ustr \<Rightarrow> ustr option \<Rightarrow> db \<Rightarrow> post" where
  "new_post created updated uid content url d =
     \<lparr> Post_id = next_id (map Post_id (posts d)), Post_user_id = uid, Post_content = content,
       Post_image_url = url, Post_created_at = created, Post_updated_at = updated \<rparr>"

definition new_comment :: "int \<Rightarrow> int \<Rightarrow> int \<Rightarrow> int \<Rightarrow> ustr \<Rightarrow> db \<Rightarrow> comment" where
  "new_comment created updated uid pid content d =
     \<lparr> Comment_id = next_id (map Comment_id (comments d)), Comment_user_id = uid,
       Comment_post_id = pid, Comment_content = content, Comment_created_at = created,
       Comment_updated_at = updated \<rparr>"

definition new_like :: "int \<Rightarrow> int \<Rightarrow> int \<Rightarrow> db \<Rightarrow> like" where
  "new_like now uid pid d =
     \<lparr> Like_id = next_id (map Like_id (likes d)), Like_user_id = uid, Like_post_id = pid,
       Like_created_at = now \<rparr>"

definition new_follow :: "int \<Rightarrow> int \<Rightarrow> int \<Rightarrow> db \<Rightarrow> follow" where
  "new_follow now follower target d =
     \<lparr> Follow_id = next_id (map Follow_id (follows d)), Follow_follower_id = follower,
       Follow_following_id = target, Follow_created_at = now \<rparr>"

text \<open>The like rows of one account on one post, and the follow rows of one ordered pair.\<close>

definition like_rows :: "int \<Rightarrow> int \<Rightarrow> db \<Rightarrow> like list" where
  "like_rows uid pid d = filter (\<lambda>r. Like_user_id r = uid \<and> Like_post_id r = pid) (likes d)"

definition follow_rows :: "int \<Rightarrow> int \<Rightarrow> db \<Rightarrow> follow list" where
  "follow_rows follower target d =
     filter (\<lambda>r. Follow_follower_id r = follower \<and> Follow_following_id r = target) (follows d)"

text \<open>An image reference of the body that the column takes as it is: none, null, or a text that
  can be bound.\<close>

definition plain_image_url :: "jval option \<Rightarrow> ustr option \<Rightarrow> bool" where
  "plain_image_url v url =
     (case v of
        None \<Rightarrow> url = None
      | Some JNull \<Rightarrow> url = None
      | Some (JStr s) \<Rightarrow> sql_text s \<and> url = Some s
      | Some _ \<Rightarrow> False)"

text \<open>
  What a profile update may do to a user row: change its \<open>bio\<close> and \<open>updated_at\<close>
  columns, and only in the row of the caller; and to the database: nothing else.
\<close>

definition only_bio_changed :: "int option \<Rightarrow> user \<Rightarrow> user \<Rightarrow> bool" where
  "only_bio_changed caller r r' =
     (r' = r\<lparr>User_bio := User_bio r', User_updated_at := User_updated_at r'\<rparr>
      \<and> (caller \<noteq> Some (User_id r) \<longrightarrow> r' = r))"

definition profile_frame :: "int option \<Rightarrow> db \<Rightarrow> db \<Rightarrow> bool" where
  "profile_frame caller d d' =
     (posts d' = posts d \<and> likes d' = likes d \<and> comments d' = comments d
      \<and> follows d' = follows d \<and> list_all2 (only_bio_changed caller) (users d) (users d'))"

text \<open>A comment view shows a comment row.\<close>

definition shows_comment :: "comment \<Rightarrow> comment_view \<Rightarrow> bool" where
  "shows_comment c v = (cv_id v = Comment_id c \<and> cv_content v = Comment_content c
     \<and> cv_created_at v = Comment_created_at c)"

text \<open>
  The number of likes of a post, and the order of the trending feed on pairs of a like
  count and a creation time: more likes first, and for equal counts the newer first.
\<close>

definition likes_count :: "db \<Rightarrow> post \<Rightarrow> nat" where
  "likes_count d p = length (filter (\<lambda>l. Like_post_id l = Post_id p) (likes d))"

definition hotter :: "nat \<times> int \<Rightarrow> nat \<times> int \<Rightarrow> bool" where
  "hotter a b = (fst b < fst a \<or> (fst a = fst b \<and> snd b \<le> snd a))"

text \<open>
  The signature of a payload as the specification describes it: the payload is parsed
  into a mapping from each name to its first value, the lines \<open>name=value\<close> of the
  names other than \<open>hash\<close> are sorted and joined by newlines, and this check-string is
  put under HMAC-SHA256 with the key HMAC-SHA256(\<open>WebAppData\<close>, secret), in lowercase
  hexadecimal. There is no signature when the secret or the check-string has no UTF-8
  encoding.
\<close>

definition spec_check_string :: "ustr \<Rightarrow> ustr" where
  "spec_check_string payload =
     (let firsts = map (\<lambda>(name, values). (name, hd values)) (parse_qs payload);
          lines = map (\<lambda>(name, val). name @ [61] @ val)
                      (filter (\<lambda>(name, val). name \<noteq> ustr_of ''hash'') firsts)
      in join [10] (sort lines))"

definition spec_signature :: "ustr \<Rightarrow> ustr \<Rightarrow> ustr option" where
  "spec_signature payload secret =
     (case encode secret of
        None \<Rightarrow> None
      | Some secret_bytes \<Rightarrow>
          (case encode (spec_check_string payload) of
             None \<Rightarrow> None
           | Some check_bytes \<Rightarrow>
               Some (hexdigest (hmac_sha256
                       (hmac_sha256 (map of_nat (ustr_of ''WebAppData'')) secret_bytes)
                       check_bytes))))"

text \<open>
  A payload followed by a \<open>hash\<close> field that carries its signature, and three sample
  values: a secret, fields without a \<open>user\<close> field, and the fields of the example
  of the specification.
\<close>

definition signed :: "ustr \<Rightarrow> ustr \<Rightarrow> ustr" where
  "signed body secret = body @ ustr_of ''&hash='' @ or_empty (spec_signature body secret)"

definition sample_token :: ustr where
  "sample_token = ustr_of ''S''"

definition fields_without_user :: ustr where
  "fields_without_user = ustr_of ''auth_date=1700000000''"

definition fields_with_user :: ustr where
  "fields_with_user =
     ustr_of ''user=%7B%22id%22%3A1%2C%22first_name%22%3A%22A%22%7D&auth_date=1700000000''"




section \<open>Auxiliary facts\<close>

lemma py_int_one: "py_int (ustr_of ''1'') = Some 1"
  by (simp add: py_int_def ustr_of_def int_space_def isspace_def parse_unsigned_def
      digit_value_def digit_zeros_def)

lemma py_int_nonempty: "py_int h = Some n \<Longrightarrow> h \<noteq> []"
  by (auto simp: py_int_def)

lemma get_or_404_found:
  assumes "get_or_404 key rows k = Inr r"
  shows "sql_int k" and "find (\<lambda>r. key r = k) rows = Some r" and "key r = k"
  using assms by (auto simp: get_or_404_def find_Some_iff split: if_splits option.splits)

lemma sql_int_one: "sql_int 1" and sql_int_two: "sql_int 2"
  by (simp_all add: sql_int_def)

lemma get_user_alice: "get_or_404 User_id (users sample_db) 1 = Inr alice"
  by (simp add: get_or_404_def sql_int_one sample_db_def alice_def)

lemma get_user_bob: "get_or_404 User_id (users sample_db) 2 = Inr bob"
  by (simp add: get_or_404_def sql_int_two sample_db_def alice_def bob_def)

lemma get_post_1: "get_or_404 Post_id (posts sample_db) 1 = Inr post1"
  by (simp add: get_or_404_def sql_int_one sample_db_def post1_def)

lemma caller_alice: "py_int (or_empty (x_user_id (request_of_alice as body))) = Some 1"
  by (simp add: request_of_alice_def or_empty_def py_int_one)

lemma serialize_user_in_range:
  "sql_int uid \<Longrightarrow> \<exists>v. serialize_user d usr (Some uid) = Inr v \<and> uv_bio v = or_empty (User_bio usr)"
  by (simp add: serialize_user_def)

lemma find_map_update:
  assumes "\<And>r. User_id (f r) = User_id r"
  shows "find (\<lambda>r. User_id r = k) (map (\<lambda>r. if User_id r = k then f r else r) rs)
         = map_option f (find (\<lambda>r. User_id r = k) rs)"
  by (induction rs) (auto simp: assms)

lemma get_user_update_user:
  assumes "\<And>r. User_id (f r) = User_id r"
  shows "get_user (update_user k f d) k = map_option f (get_user d k)"
  by (simp add: get_user_def update_user_def find_map_update assms)

lemma profile_frame_refl: "profile_frame caller d d"
  by (simp add: profile_frame_def only_bio_changed_def list.rel_refl)

lemma profile_frame_update:
  assumes "\<And>r. f r = r\<lparr>User_bio := User_bio (f r), User_updated_at := User_updated_at (f r)\<rparr>"
  shows "profile_frame (Some uid) d (update_user uid f d)"
  unfolding profile_frame_def update_user_def
  using assms
  by (auto simp: list_all2_map2 only_bio_changed_def intro!: list.rel_refl)

lemma max_le_foldr: "k \<le> foldr max ks (k::int)"
  by (induction ks) auto

lemma member_le_foldr: "x \<in> set ks \<Longrightarrow> x \<le> foldr max ks (k::int)"
  by (induction ks) auto

lemma next_id_greater: "k \<in> set ids \<Longrightarrow> k < next_id ids"
proof (cases ids)
  case Nil
  then show "k \<in> set ids \<Longrightarrow> k < next_id ids" by simp
next
  case (Cons j js)
  assume "k \<in> set ids"
  with Cons have "k \<le> foldr max js j"
    using max_le_foldr [of j js] member_le_foldr [of k js j] by auto
  with Cons show "k < next_id ids" by (simp add: next_id_def)
qed

lemma find_append_new:
  "find P xs = None \<Longrightarrow> find P (xs @ [y]) = (if P y then Some y else None)"
  by (induction xs) (auto split: if_splits)

lemma find_append_old: "find P xs = Some x \<Longrightarrow> find P (xs @ ys) = Some x"
  by (induction xs) (auto split: if_splits)

lemma filter_none: "find P xs = None \<Longrightarrow> filter P xs = []"
  by (induction xs) (auto split: if_splits)

lemma remove_new_row:
  "filter (\<lambda>r. key r \<noteq> next_id (map key rows)) rows = rows"
proof -
  have "\<forall>r\<in>set rows. key r \<noteq> next_id (map key rows)"
    using next_id_greater [of _ "map key rows"] by fastforce
  then show ?thesis by simp
qed

lemma get_or_404_append:
  "get_or_404 key rows k = Inr r \<Longrightarrow> get_or_404 key (rows @ ys) k = Inr r"
  by (auto simp: get_or_404_def find_append_old split: if_splits option.splits)

lemma plain_image_url_of: "plain_image_url v url \<Longrightarrow> image_url_of v = Inr url"
  by (auto simp: plain_image_url_def image_url_of_def split: option.splits jval.splits)

lemma content_of_JStr:
  "map_of kvs (ustr_of ''content'') = Some (JStr s) \<Longrightarrow> content_of (JObj kvs) = Inr (strip s)"
  by (simp add: content_of_def py_get_def)

lemma create_post_rejects:
  assumes "or_empty (x_user_id req) \<noteq> []" and "json req = Inr (JObj kvs)"
    and "map_of kvs (ustr_of ''content'') = Some (JStr s)"
    and "strip s = [] \<or> 280 < length (strip s)"
  shows "create_post created updated req d = (Inl content_error, d)"
  using assms by (auto simp: create_post_def content_of_JStr py_get_def content_error_def)

lemma create_comment_rejects:
  assumes "or_empty (x_user_id req) \<noteq> []" and "json req = Inr (JObj kvs)"
    and "map_of kvs (ustr_of ''content'') = Some (JStr s)"
    and "strip s = [] \<or> 280 < length (strip s)"
  shows "create_comment created updated pid req d = (Inl content_error, d)"
  using assms by (auto simp: create_comment_def content_of_JStr content_error_def)

lemma create_post_accepts:
  assumes "or_empty (x_user_id req) \<noteq> []" and "json req = Inr (JObj kvs)"
    and "map_of kvs (ustr_of ''content'') = Some (JStr s)"
    and "strip s \<noteq> []" and "length (strip s) \<le> 280" and "sql_text (strip s)"
    and "py_int (or_empty (x_user_id req)) = Some uid"
    and "get_or_404 User_id (users d) uid = Inr usr"
    and "plain_image_url (map_of kvs (ustr_of ''image_url'')) url"
  shows "\<exists>v. create_post created updated req d
              = (Inr v, d\<lparr>posts := posts d @ [new_post created updated uid (strip s) url d]\<rparr>)
            \<and> pv_content v = strip s \<and> pv_id v = next_id (map Post_id (posts d))"
proof -
  from assms(8) have range: "sql_int uid" and row: "get_user d uid = Some usr"
    by (simp_all add: get_or_404_found get_user_def)
  let ?d' = "d\<lparr>posts := posts d @ [new_post created updated uid (strip s) url d]\<rparr>"
  from serialize_user_in_range [OF range, of ?d' usr]
  obtain av where "serialize_user ?d' usr (Some uid) = Inr av" by blast
  with assms range row show ?thesis
    by (simp add: create_post_def content_of_JStr py_get_def plain_image_url_of Let_def
        new_post_def serialize_post_def get_user_def)
qed

lemma create_comment_accepts:
  assumes "or_empty (x_user_id req) \<noteq> []" and "json req = Inr (JObj kvs)"
    and "map_of kvs (ustr_of ''content'') = Some (JStr s)"
    and "strip s \<noteq> []" and "length (strip s) \<le> 280" and "sql_text (strip s)"
    and "py_int (or_empty (x_user_id req)) = Some uid"
    and "get_or_404 User_id (users d) uid = Inr usr"
    and "get_or_404 Post_id (posts d) pid = Inr p"
  shows "\<exists>v. create_comment created updated pid req d
              = (Inr v, d\<lparr>comments := comments d @ [new_comment created updated uid pid (strip s) d]\<rparr>)
            \<and> cv_content v = strip s \<and> cv_id v = next_id (map Comment_id (comments d))"
proof -
  from assms(8) have range: "sql_int uid" and row: "get_user d uid = Some usr"
    by (simp_all add: get_or_404_found get_user_def)
  let ?d' = "d\<lparr>comments := comments d @ [new_comment created updated uid pid (strip s) d]\<rparr>"
  from serialize_user_in_range [OF range, of ?d' usr]
  obtain av where "serialize_user ?d' usr (Some uid) = Inr av" by blast
  with assms range row show ?thesis
    by (simp add: create_comment_def content_of_JStr Let_def new_comment_def
        serialize_comment_def get_user_def)
qed

lemma strip_replicate_a: "strip (replicate n 97) = replicate n 97"
  by (simp add: strip_def isspace_def dropWhile_replicate)

lemma sql_text_replicate_a: "sql_text (replicate n 97)"
  by (simp add: sql_text_def list_all_iff)

lemma key_neq: "ustr_of ''image_url'' \<noteq> ustr_of ''content''"
  by (simp add: ustr_of_def)

lemma sample_next_post: "next_id (map Post_id (posts sample_db)) = 4"
  by (simp add: next_id_def sample_db_def post1_def post2_def post3_def)

lemma sample_next_comment: "next_id (map Comment_id (comments sample_db)) = 3"
  by (simp add: next_id_def sample_db_def comment1_def comment2_def)

lemma sample_next_like: "next_id (map Like_id (likes sample_db)) = 4"
  by (simp add: next_id_def sample_db_def like1_def like2_def like3_def)

lemma sample_next_follow: "next_id (map Follow_id (follows sample_db)) = 1"
  by (simp add: next_id_def sample_db_def)

lemma sql_int_small: "sql_int 3" "sql_int 4"
  by (simp_all add: sql_int_def)

lemma toggle_like_adds:
  assumes "py_int (or_empty (x_user_id req)) = Some uid" and "sql_int uid"
    and "get_or_404 Post_id (posts d) pid = Inr p" and "first_like d uid pid = None"
  shows "\<exists>r. toggle_like t pid req d = (Inr r, d\<lparr>likes := likes d @ [new_like t uid pid d]\<rparr>)
           \<and> lr_action r = liked"
proof -
  from assms(1) have "or_empty (x_user_id req) \<noteq> []"
    by (auto simp: py_int_def)
  with assms show ?thesis
    by (simp add: toggle_like_def new_like_def)
qed

lemma toggle_like_removes:
  assumes "py_int (or_empty (x_user_id req)) = Some uid" and "sql_int uid"
    and "get_or_404 Post_id (posts d) pid = Inr p" and "first_like d uid pid = None"
  shows "\<exists>r. toggle_like t pid req (d\<lparr>likes := likes d @ [new_like t' uid pid d]\<rparr>) = (Inr r, d)
           \<and> lr_action r = unliked"
proof -
  from assms(1) have ne: "or_empty (x_user_id req) \<noteq> []"
    by (auto simp: py_int_def)
  let ?d1 = "d\<lparr>likes := likes d @ [new_like t' uid pid d]\<rparr>"
  have found: "first_like ?d1 uid pid = Some (new_like t' uid pid d)"
    using assms(4) by (simp add: first_like_def find_append_new new_like_def)
  have undo: "filter (\<lambda>r. Like_id r \<noteq> Like_id (new_like t' uid pid d))
                (likes d @ [new_like t' uid pid d]) = likes d"
    using remove_new_row [of Like_id "likes d"] by (simp add: new_like_def)
  show ?thesis
    using ne assms(1,2,3) found undo by (simp add: toggle_like_def)
qed

lemma toggle_follow_adds:
  assumes "py_int (or_empty (x_user_id req)) = Some uid" and "sql_int uid" and "uid \<noteq> tid"
    and "get_or_404 User_id (users d) tid = Inr tu" and "first_follow d uid tid = None"
  shows "\<exists>r. toggle_follow t tid req d
               = (Inr (followed, r), d\<lparr>follows := follows d @ [new_follow t uid tid d]\<rparr>)"
proof -
  from assms(1) have ne: "or_empty (x_user_id req) \<noteq> []"
    by (auto simp: py_int_def)
  from serialize_user_in_range [OF assms(2), of "d\<lparr>follows := follows d @ [new_follow t uid tid d]\<rparr>" tu]
  obtain v where "serialize_user (d\<lparr>follows := follows d @ [new_follow t uid tid d]\<rparr>) tu (Some uid) = Inr v"
    by blast
  with ne assms show ?thesis
    by (simp add: toggle_follow_def new_follow_def)
qed

lemma toggle_follow_removes:
  assumes "py_int (or_empty (x_user_id req)) = Some uid" and "sql_int uid" and "uid \<noteq> tid"
    and "get_or_404 User_id (users d) tid = Inr tu" and "first_follow d uid tid = None"
  shows "\<exists>r. toggle_follow t tid req (d\<lparr>follows := follows d @ [new_follow t' uid tid d]\<rparr>)
               = (Inr (unfollowed, r), d)"
proof -
  from assms(1) have ne: "or_empty (x_user_id req) \<noteq> []"
    by (auto simp: py_int_def)
  let ?d1 = "d\<lparr>follows := follows d @ [new_follow t' uid tid d]\<rparr>"
  have found: "first_follow ?d1 uid tid = Some (new_follow t' uid tid d)"
    using assms(5) by (simp add: first_follow_def find_append_new new_follow_def)
  have undo: "filter (\<lambda>r. Follow_id r \<noteq> Follow_id (new_follow t' uid tid d))
                (follows d @ [new_follow t' uid tid d]) = follows d"
    using remove_new_row [of Follow_id "follows d"] by (simp add: new_follow_def)
  from serialize_user_in_range [OF assms(2), of d tu]
  obtain v where "serialize_user d tu (Some uid) = Inr v"
    by blast
  then show ?thesis
    using ne assms(1,2,3,4) found undo by (simp add: toggle_follow_def)
qed

lemma serialize_all_pointwise:
  "serialize_all f xs = Inr vs \<Longrightarrow> list_all2 (\<lambda>x v. f x = Inr v) xs vs"
  by (induction xs arbitrary: vs) (auto split: sum.splits)

lemma list_all2_source:
  assumes "list_all2 R xs ys" and "y \<in> set ys"
  obtains x where "x \<in> set xs" and "R x y"
  using assms by (metis in_set_conv_nth list_all2_conv_all_nth)

lemma sorted_wrt_related:
  assumes "list_all2 R xs ys" and "sorted_wrt P xs"
    and "\<And>x y v w. R x v \<Longrightarrow> R y w \<Longrightarrow> P x y \<Longrightarrow> Q v w"
  shows "sorted_wrt Q ys"
  using assms(1,2)
proof (induction rule: list_all2_induct)
  case Nil
  then show ?case by simp
next
  case (Cons x xs y ys)
  have "Q y w" if "w \<in> set ys" for w
  proof -
    from Cons.hyps(2) that obtain z where "z \<in> set xs" and "R z w"
      by (rule list_all2_source)
    with Cons.prems Cons.hyps(1) show ?thesis
      by (auto intro: assms(3))
  qed
  with Cons show ?case by simp
qed

lemma newest_first_sorted:
  "sorted_wrt (\<lambda>a b. created b \<le> created a) (newest_first created rows)"
proof -
  have "sorted (map (\<lambda>r. - created r) (newest_first created rows))"
    by (simp add: newest_first_def)
  then show ?thesis
    by (simp add: sorted_map)
qed

lemma newest_first_mset: "mset (newest_first created rows) = mset rows"
  by (simp add: newest_first_def)

lemma serialize_comment_shows:
  "serialize_comment d c cur = Inr v \<Longrightarrow> shows_comment c v"
  by (auto simp: serialize_comment_def shows_comment_def split: option.splits sum.splits)

lemma get_comments_views:
  assumes "get_comments pid req d = Inr (pv, cvs)"
  shows "\<exists>cur. serialize_all (\<lambda>c. serialize_comment d c cur)
                  (newest_first Comment_created_at
                     (filter (\<lambda>c. Comment_post_id c = pid) (comments d))) = Inr cvs"
proof (cases "viewer_of req")
  case (Inl e)
  with assms show ?thesis by (simp add: get_comments_def)
next
  case cur: (Inr cur)
  show ?thesis
  proof (cases "get_or_404 Post_id (posts d) pid")
    case (Inl e)
    with assms cur show ?thesis by (simp add: get_comments_def)
  next
    case p: (Inr p)
    show ?thesis
    proof (cases "serialize_post d p cur")
      case (Inl e)
      with assms cur p show ?thesis by (simp add: get_comments_def)
    next
      case pv: (Inr pv')
      show ?thesis
      proof (cases "serialize_all (\<lambda>c. serialize_comment d c cur)
                      (newest_first Comment_created_at
                         (filter (\<lambda>c. Comment_post_id c = pid) (comments d)))")
        case (Inl e)
        with assms cur p pv show ?thesis by (simp add: get_comments_def)
      next
        case (Inr vs)
        with assms cur p pv have "vs = cvs" by (simp add: get_comments_def)
        with Inr show ?thesis by blast
      qed
    qed
  qed
qed

lemma ustr_of_inject: "ustr_of s = ustr_of t \<longleftrightarrow> s = t"
  by (simp add: ustr_of_def inj_map_eq_map [OF inj_of_char])

lemma join_rows_of_post:
  assumes "distinct (map Post_id ps)" and "p \<in> set ps"
  shows "filter (\<lambda>(q, l). Post_id q = Post_id p) (concat (map (\<lambda>q. map (Pair q) (L q)) ps))
           = map (Pair p) (L p)"
  using assms
proof (induction ps)
  case Nil
  then show ?case by simp
next
  case (Cons q ps)
  have other: "filter (\<lambda>(r, l). Post_id r = k) (concat (map (\<lambda>r. map (Pair r) (L r)) ps)) = []"
    if "k \<notin> Post_id ` set ps" for k
    using that by (induction ps) (auto simp: filter_empty_conv)
  have same: "filter (\<lambda>(r, l). Post_id r = Post_id q) (map (Pair q) (L q)) = map (Pair q) (L q)"
    by (induction "L q") (auto simp: filter_map o_def)
  have diff: "filter (\<lambda>(r, l). Post_id r = k) (map (Pair q) (L q)) = []" if "Post_id q \<noteq> k" for k
    using that by (auto simp: filter_empty_conv)
  show ?case
  proof (cases "p = q")
    case True
    with Cons.prems other [of "Post_id q"] same show ?thesis by simp
  next
    case False
    with Cons.prems have "p \<in> set ps" and "Post_id q \<noteq> Post_id p" by auto
    with Cons diff [of "Post_id p"] show ?thesis by simp
  qed
qed

lemma join_likes_member:
  "(p, l) \<in> set (join_likes d) \<longleftrightarrow> p \<in> set (posts d) \<and> l \<in> set (likes d) \<and> Like_post_id l = Post_id p"
  by (auto simp: join_likes_def)

lemma group_by_post_member:
  assumes "distinct (map Post_id (posts d))" and "(p, n) \<in> set (group_by_post (join_likes d))"
  shows "p \<in> set (posts d) \<and> n = likes_count d p \<and> 0 < n"
proof -
  from assms(2) obtain q l where ql: "(q, l) \<in> set (join_likes d)"
    and p: "p = fst (hd (filter (\<lambda>(r, l). Post_id r = Post_id q) (join_likes d)))"
    and n: "n = length (filter (\<lambda>(r, l). Post_id r = Post_id q) (join_likes d))"
    by (auto simp: group_by_post_def)
  from ql have q: "q \<in> set (posts d)" and l: "l \<in> set (likes d)" "Like_post_id l = Post_id q"
    by (simp_all add: join_likes_member)
  have rows: "filter (\<lambda>(r, l). Post_id r = Post_id q) (join_likes d)
                = map (Pair q) (filter (\<lambda>l. Like_post_id l = Post_id q) (likes d))"
    unfolding join_likes_def using assms(1) q by (rule join_rows_of_post)
  from l have ne: "filter (\<lambda>l. Like_post_id l = Post_id q) (likes d) \<noteq> []"
    by (auto simp: filter_empty_conv)
  then have "p = q"
    using p rows by (simp add: hd_map)
  with q n rows ne show ?thesis
    by (simp add: likes_count_def)
qed

lemma trending_key_order:
  assumes "(- int n, - t) \<le> (- int m, - (u::int))"
  shows "hotter (n, t) (m, u)"
  using assms unfolding hotter_def less_eq_prod_def by auto

lemma trending_query_member:
  assumes "distinct (map Post_id (posts d))" and "p \<in> set (trending_query d)"
  shows "p \<in> set (posts d) \<and> 0 < likes_count d p"
proof -
  from assms(2) obtain n where "(p, n) \<in> set (group_by_post (join_likes d))"
    unfolding trending_query_def by force
  with group_by_post_member [OF assms(1)] show ?thesis
    by blast
qed

lemma trending_query_sorted:
  assumes "distinct (map Post_id (posts d))"
  shows "sorted_wrt (\<lambda>a b. hotter (likes_count d a, Post_created_at a) (likes_count d b, Post_created_at b))
           (trending_query d)"
proof -
  define G where "G = group_by_post (join_likes d)"
  define key where "key = (\<lambda>x :: post \<times> nat. (- int (snd x), - Post_created_at (fst x)))"
  have same_key: "(\<lambda>(p, n). (- int n, - Post_created_at p)) = key"
    by (auto simp: key_def)
  have "sorted (map key (sort_key key G))"
    by simp
  then have by_key: "sorted_wrt (\<lambda>x y. key x \<le> key y) (sort_key key G)"
    by (simp add: sorted_map)
  have "sorted_wrt (\<lambda>x y. hotter (likes_count d (fst x), Post_created_at (fst x))
                              (likes_count d (fst y), Post_created_at (fst y)))
               (sort_key key G)"
  proof (rule sorted_wrt_mono_rel [OF _ by_key])
    fix x y
    assume x: "x \<in> set (sort_key key G)" and y: "y \<in> set (sort_key key G)" and le: "key x \<le> key y"
    from x have "(fst x, snd x) \<in> set G" by simp
    then have nx: "snd x = likes_count d (fst x)"
      using group_by_post_member [OF assms] unfolding G_def by blast
    from y have "(fst y, snd y) \<in> set G" by simp
    then have ny: "snd y = likes_count d (fst y)"
      using group_by_post_member [OF assms] unfolding G_def by blast
    from le have "(- int (snd x), - Post_created_at (fst x)) \<le> (- int (snd y), - Post_created_at (fst y))"
      by (simp add: key_def)
    then have "hotter (snd x, Post_created_at (fst x)) (snd y, Post_created_at (fst y))"
      by (rule trending_key_order)
    with nx ny show "hotter (likes_count d (fst x), Post_created_at (fst x))
                         (likes_count d (fst y), Post_created_at (fst y))"
      by simp
  qed
  then show ?thesis
    by (simp add: trending_query_def sorted_wrt_map same_key G_def)
qed

lemma serialize_post_shows:
  "serialize_post d p cur = Inr v \<Longrightarrow>
     pv_id v = Post_id p \<and> pv_likes_count v = likes_count d p \<and> pv_created_at v = Post_created_at p"
  by (auto simp: serialize_post_def likes_count_def split: option.splits sum.splits if_splits)

lemma get_posts_views:
  assumes "get_posts req d = Inr r"
  shows "\<exists>cur page per_page rows pg.
           feed_query (filter_arg req) cur d = Inr rows
         \<and> paginate page per_page rows = Inr pg
         \<and> serialize_all (\<lambda>p. serialize_post d p cur) (pg_items pg) = Inr (fr_posts r)"
proof (cases "viewer_of req")
  case (Inl e)
  with assms show ?thesis by (simp add: get_posts_def)
next
  case cur: (Inr cur)
  show ?thesis
  proof (cases "int_arg req ''page'' 1")
    case (Inl e)
    with assms cur show ?thesis by (simp add: get_posts_def)
  next
    case page: (Inr page)
    show ?thesis
    proof (cases "int_arg req ''per_page'' 20")
      case (Inl e)
      with assms cur page show ?thesis by (simp add: get_posts_def)
    next
      case per_page: (Inr per_page)
      show ?thesis
      proof (cases "feed_query (filter_arg req) cur d")
        case (Inl e)
        with assms cur page per_page show ?thesis by (simp add: get_posts_def)
      next
        case rows: (Inr rows)
        show ?thesis
        proof (cases "paginate page per_page rows")
          case (Inl e)
          with assms cur page per_page rows show ?thesis by (simp add: get_posts_def)
        next
          case pg: (Inr pg)
          show ?thesis
          proof (cases "serialize_all (\<lambda>p. serialize_post d p cur) (pg_items pg)")
            case (Inl e)
            with assms cur page per_page rows pg show ?thesis by (simp add: get_posts_def)
          next
            case (Inr views)
            with assms cur page per_page rows pg have "fr_posts r = views"
              by (auto simp: get_posts_def)
            with Inr rows pg show ?thesis by blast
          qed
        qed
      qed
    qed
  qed
qed

lemma page_of_rows:
  assumes "paginate page per_page rows = Inr pg"
  shows "\<exists>m n. pg_items pg = take m (drop n rows)"
proof -
  from assms have "pg_items pg
          = take (if per_page < 1 then 20 else nat per_page)
              (drop (((if page < 1 then 1 else nat page) - 1)
                       * (if per_page < 1 then 20 else nat per_page)) rows)"
    by (auto simp: paginate_def Let_def split: if_splits)
  then show ?thesis by blast
qed

lemma hotter_views:
  assumes "serialize_post d p cur = Inr v" and "serialize_post d q cur = Inr w"
    and "hotter (likes_count d p, Post_created_at p) (likes_count d q, Post_created_at q)"
  shows "hotter (pv_likes_count v, pv_created_at v) (pv_likes_count w, pv_created_at w)"
  using assms serialize_post_shows [of d p cur v] serialize_post_shows [of d q cur w]
  by simp

lemma sample_latest: "newest_first Post_created_at (posts sample_db) = [post3, post2, post1]"
  by (simp add: newest_first_def sample_db_def post1_def post2_def post3_def)

lemma sample_authors:
  "get_user sample_db (Post_user_id post1) = Some alice"
  "get_user sample_db (Post_user_id post2) = Some bob"
  "get_user sample_db (Post_user_id post3) = Some alice"
  by (simp_all add: get_user_def sample_db_def post1_def post2_def post3_def alice_def bob_def)

lemma sample_post_ids: "Post_id post1 = 1" "Post_id post2 = 2" "Post_id post3 = 3"
  by (simp_all add: post1_def post2_def post3_def)

lemma serialize_post_id:
  "get_user d (Post_user_id p) = Some a \<Longrightarrow>
     \<exists>v. serialize_post d p None = Inr v \<and> pv_id v = Post_id p"
  by (simp add: serialize_post_def serialize_user_def truthy_def)

lemma anonymous_viewer: "viewer_of (anonymous_request as body) = Inr None"
  by (simp add: viewer_of_def anonymous_request_def or_empty_def)

lemma first_page: "paginate 1 20 rows
   = Inr \<lparr> pg_items = take 20 rows, pg_total = length rows,
           pg_pages = (if length rows = 0 then 0 else (length rows + 19) div 20),
           pg_has_next = (1 < (if length rows = 0 then 0 else (length rows + 19) div 20)),
           pg_has_prev = False \<rparr>"
  by (simp add: paginate_def sql_int_def Let_def add.commute)

lemma following_args:
  "int_arg (anonymous_request [(ustr_of ''filter'', ustr_of ''following'')] body) ''page'' 1 = Inr 1"
  "int_arg (anonymous_request [(ustr_of ''filter'', ustr_of ''following'')] body) ''per_page'' 20 = Inr 20"
  "filter_arg (anonymous_request [(ustr_of ''filter'', ustr_of ''following'')] body) = ustr_of ''following''"
  by (simp_all add: int_arg_def filter_arg_def anonymous_request_def ustr_of_inject)

lemma sample_comments_of_post1:
  "filter (\<lambda>c. Comment_post_id c = 1) (comments sample_db) = [comment1, comment2]"
  by (simp add: sample_db_def comment1_def comment2_def)

lemma sample_comments_sorted:
  "newest_first Comment_created_at [comment1, comment2] = [comment2, comment1]"
  by (simp add: newest_first_def comment1_def comment2_def)

lemma sample_commenters:
  "get_user sample_db (Comment_user_id comment1) = Some bob"
  "get_user sample_db (Comment_user_id comment2) = Some alice"
  by (simp_all add: get_user_def sample_db_def comment1_def comment2_def alice_def bob_def)

lemma serialize_comment_id:
  "get_user d (Comment_user_id c) = Some a \<Longrightarrow>
     \<exists>v. serialize_comment d c None = Inr v \<and> cv_id v = Comment_id c"
  by (simp add: serialize_comment_def serialize_user_def truthy_def)

lemma sample_post_keys: "distinct (map Post_id (posts sample_db))"
  by (simp add: sample_db_def post1_def post2_def post3_def)

lemma trending_args:
  "filter_arg (anonymous_request [(ustr_of ''filter'', ustr_of ''trending'')] body) = ustr_of ''trending''"
  "int_arg (anonymous_request [(ustr_of ''filter'', ustr_of ''trending'')] body) ''page'' 1 = Inr 1"
  "int_arg (anonymous_request [(ustr_of ''filter'', ustr_of ''trending'')] body) ''per_page'' 20 = Inr 20"
  by (simp_all add: int_arg_def filter_arg_def anonymous_request_def ustr_of_inject)

lemma sample_join:
  "join_likes sample_db = [(post1, like1), (post2, like2), (post2, like3)]"
  by (simp add: join_likes_def sample_db_def post1_def post2_def post3_def like1_def like2_def like3_def)

lemma sample_groups:
  "group_by_post [(post1, like1), (post2, like2), (post2, like3)] = [(post1, 1), (post2, 2)]"
  by (simp add: group_by_post_def sample_post_ids)

lemma sample_trending: "trending_query sample_db = [post2, post1]"
  by (simp add: trending_query_def sample_join sample_groups)

lemma sha256_abc:
  "hexdigest (sha256 (map of_nat (ustr_of ''abc'')))
     = ustr_of ''ba7816bf8f01cfea414140de5dae2223b00361a396177a9cb410ff61f20015ad''"
  by code_simp

lemma sha256_not_empty: "sha256 m \<noteq> []"
proof -
  obtain a b c d e f g h where
    "foldl compress H256 (blocks (length (pad m) div 64) (pad m)) = (a, b, c, d, e, f, g, h)"
    by (metis prod_cases3)
  then show ?thesis
    by (simp add: sha256_def Let_def state_words_def word_bytes_def)
qed

lemma hmac_sha256_not_empty: "hmac_sha256 key msg \<noteq> []"
  by (simp add: hmac_sha256_def Let_def sha256_not_empty)

lemma hexdigest_not_empty: "bs \<noteq> [] \<Longrightarrow> hexdigest bs \<noteq> []"
  by (cases bs) (simp_all add: hexdigest_def)

lemma hexdigit_range: "n < 16 \<Longrightarrow> (48 \<le> hexdigit n \<and> hexdigit n \<le> 57) \<or> (97 \<le> hexdigit n \<and> hexdigit n \<le> 102)"
  by (auto simp: hexdigit_def)

lemma hexdigest_chars:
  assumes "c \<in> set (hexdigest bs)"
  shows "(48 \<le> c \<and> c \<le> 57) \<or> (97 \<le> c \<and> c \<le> 102)"
proof -
  from assms have "\<exists>b :: byte. c = hexdigit (unat b div 16) \<or> c = hexdigit (unat b mod 16)"
    by (auto simp: hexdigest_def)
  then obtain b :: byte where "c = hexdigit (unat b div 16) \<or> c = hexdigit (unat b mod 16)" ..
  moreover have "unat b div 16 < 16"
    using unsigned_less [of b, where 'a = nat] by (simp add: less_mult_imp_div_less)
  moreover have "unat b mod 16 < 16" by simp
  ultimately show ?thesis
    using hexdigit_range by blast
qed

lemma check_lines:
  "map (\<lambda>(name, val). name @ [61] @ val)
     (filter (\<lambda>(name, val). name \<noteq> k) (map (\<lambda>(name, values). (name, hd values)) D))
   = map (\<lambda>(key, values). key @ [61] @ hd values) (filter (\<lambda>(key, values). key \<noteq> k) D)"
  by (induction D) auto

lemma spec_check_string_code:
  "spec_check_string payload =
     join [10] (sort (map (\<lambda>(key, values). key @ [61] @ hd values)
                       (filter (\<lambda>(key, values). key \<noteq> ustr_of ''hash'') (parse_qs payload))))"
  unfolding spec_check_string_def Let_def check_lines ..

lemma validate_some:
  assumes "validate_telegram_data json_loads init_data bot_token = Some v"
  shows "\<exists>h u. first_value (parse_qs init_data) ''hash'' = Some h
           \<and> spec_signature init_data bot_token = Some h
           \<and> first_value (parse_qs init_data) ''user'' = Some u \<and> u \<noteq> []
           \<and> json_loads (unquote u) = Some v"
  using assms
  by (auto simp: validate_telegram_data_def spec_signature_def spec_check_string_code
      Let_def or_empty_def split: option.splits if_splits)

lemma validate_of_signature:
  assumes "first_value (parse_qs init_data) ''hash'' = Some h"
    and "spec_signature init_data bot_token = Some h"
  shows "validate_telegram_data json_loads init_data bot_token
           = (case first_value (parse_qs init_data) ''user'' of
                None \<Rightarrow> None
              | Some u \<Rightarrow> if u = [] then None else json_loads (unquote u))"
proof -
  from assms(2) have "h \<noteq> []"
    by (auto simp: spec_signature_def hexdigest_not_empty hmac_sha256_not_empty split: option.splits)
  with assms show ?thesis
    by (auto simp: validate_telegram_data_def spec_signature_def spec_check_string_code
        Let_def or_empty_def split: option.splits)
qed

lemma split_on_not_empty: "split_on sep s \<noteq> []"
  by (induction s) (simp_all add: Let_def)

lemma split_on_append: "split_on sep (a @ sep # b) = split_on sep a @ split_on sep b"
  by (induction a) (simp_all add: Let_def split_on_not_empty)

lemma split_on_free: "sep \<notin> set s \<Longrightarrow> split_on sep s = [s]"
  by (induction s) (simp_all add: Let_def)

lemma map_filter_append:
  "List.map_filter f (xs @ ys) = List.map_filter f xs @ List.map_filter f ys"
  by (simp add: List.map_filter_def)

lemma parse_qsl_append: "parse_qsl (a @ 38 # b) = parse_qsl a @ parse_qsl b"
  by (simp add: parse_qsl_def split_on_append map_filter_append)

lemma plus_to_space_free: "43 \<notin> set s \<Longrightarrow> plus_to_space s = s"
  by (induction s) (simp_all add: plus_to_space_def)

lemma parse_field_hash:
  assumes "h \<noteq> []" and "37 \<notin> set h" and "43 \<notin> set h"
  shows "parse_field (ustr_of ''hash='' @ h) = Some (ustr_of ''hash'', h)"
proof -
  have "takeWhile (\<lambda>c. c \<noteq> 61) (ustr_of ''hash='' @ h) = ustr_of ''hash''"
    and "tl (dropWhile (\<lambda>c. c \<noteq> 61) (ustr_of ''hash='' @ h)) = h"
    and "61 \<in> set (ustr_of ''hash='' @ h)"
    by (simp_all add: ustr_of_def)
  moreover have "unquote (plus_to_space (ustr_of ''hash'')) = ustr_of ''hash''"
    by (simp add: ustr_of_def plus_to_space_def unquote_def)
  moreover have "unquote (plus_to_space h) = h"
    using assms by (simp add: plus_to_space_free unquote_def)
  ultimately show ?thesis
    using assms(1) by (simp add: parse_field_def)
qed

lemma parse_qsl_hash:
  assumes "h \<noteq> []" and "37 \<notin> set h" and "43 \<notin> set h" and "38 \<notin> set h"
  shows "parse_qsl (ustr_of ''hash='' @ h) = [(ustr_of ''hash'', h)]"
proof -
  have "38 \<notin> set (ustr_of ''hash='' @ h)"
    using assms(4) by (simp add: ustr_of_def)
  then have "split_on 38 (ustr_of ''hash='' @ h) = [ustr_of ''hash='' @ h]"
    by (rule split_on_free)
  then show ?thesis
    using parse_field_hash [OF assms(1-3)] by (simp add: parse_qsl_def map_filter_simps)
qed

lemma dict_append_keys: "fst ` set (dict_append D k v) = insert k (fst ` set D)"
  by (induction D k v rule: dict_append.induct) auto

lemma dict_append_new: "k \<notin> fst ` set D \<Longrightarrow> dict_append D k v = D @ [(k, [v])]"
  by (induction D k v rule: dict_append.induct) auto

lemma dict_fold_keys:
  "fst ` set (foldl (\<lambda>dict (name, val). dict_append dict name val) D ps) = fst ` set D \<union> fst ` set ps"
  by (induction ps arbitrary: D) (simp_all add: dict_append_keys split_beta)

lemma parse_qs_keys: "fst ` set (parse_qs qs) = fst ` set (parse_qsl qs)"
  by (simp add: parse_qs_def dict_fold_keys)

lemma signature_chars:
  assumes "spec_signature body secret = Some h"
  shows "h \<noteq> []" and "37 \<notin> set h" and "43 \<notin> set h" and "38 \<notin> set h"
proof -
  from assms obtain bs where h: "h = hexdigest bs" and "bs \<noteq> []"
    by (auto simp: spec_signature_def hmac_sha256_not_empty split: option.splits)
  then show "h \<noteq> []"
    by (simp add: hexdigest_not_empty)
  show "37 \<notin> set h" and "43 \<notin> set h" and "38 \<notin> set h"
    using hexdigest_chars [of _ bs] unfolding h by fastforce+
qed

lemma parse_qs_signed:
  assumes "ustr_of ''hash'' \<notin> fst ` set (parse_qsl body)"
    and "spec_signature body secret = Some h"
  shows "parse_qs (signed body secret) = parse_qs body @ [(ustr_of ''hash'', [h])]"
proof -
  have "signed body secret = body @ 38 # (ustr_of ''hash='' @ h)"
    using assms(2) by (simp add: signed_def or_empty_def ustr_of_def)
  then have "parse_qsl (signed body secret) = parse_qsl body @ [(ustr_of ''hash'', h)]"
    using parse_qsl_hash [OF signature_chars [OF assms(2)]] by (simp add: parse_qsl_append)
  then have "parse_qs (signed body secret) = dict_append (parse_qs body) (ustr_of ''hash'') h"
    by (simp add: parse_qs_def)
  then show ?thesis
    using assms(1) by (simp add: dict_append_new parse_qs_keys)
qed

lemma signed_check_string:
  assumes "ustr_of ''hash'' \<notin> fst ` set (parse_qsl body)"
    and "spec_signature body secret = Some h"
  shows "spec_check_string (signed body secret) = spec_check_string body"
  by (simp add: spec_check_string_code parse_qs_signed [OF assms])

lemma signed_signature:
  assumes "ustr_of ''hash'' \<notin> fst ` set (parse_qsl body)"
    and "spec_signature body secret = Some h"
  shows "spec_signature (signed body secret) secret = Some h"
  using assms(2) unfolding spec_signature_def signed_check_string [OF assms] .

lemma signed_hash:
  assumes "ustr_of ''hash'' \<notin> fst ` set (parse_qsl body)"
    and "spec_signature body secret = Some h"
  shows "first_value (parse_qs (signed body secret)) ''hash'' = Some h"
proof -
  have "map_of (parse_qs body) (ustr_of ''hash'') = None"
    using assms(1) by (simp add: map_of_eq_None_iff parse_qs_keys)
  then show ?thesis
    by (simp add: first_value_def parse_qs_signed [OF assms] map_add_def)
qed

lemma signed_other:
  assumes "ustr_of ''hash'' \<notin> fst ` set (parse_qsl body)"
    and "spec_signature body secret = Some h" and "key \<noteq> ''hash''"
  shows "first_value (parse_qs (signed body secret)) key = first_value (parse_qs body) key"
  using assms(3)
  by (simp add: first_value_def parse_qs_signed [OF assms(1,2)] map_add_def ustr_of_inject
      split: option.splits)

lemma encode_ascii: "list_all (\<lambda>c. c < 128) s \<Longrightarrow> encode s = Some (map of_nat s)"
  by (induction s) (simp_all add: encode_char_def)

lemma spec_signature_ascii:
  assumes "list_all (\<lambda>c. c < 128) secret" and "list_all (\<lambda>c. c < 128) (spec_check_string body)"
  shows "\<exists>h. spec_signature body secret = Some h"
  by (simp add: spec_signature_def encode_ascii [OF assms(1)] encode_ascii [OF assms(2)])

lemma parse_without_user:
  "parse_qs fields_without_user = [(ustr_of ''auth_date'', [ustr_of ''1700000000''])]"
  by code_simp

lemma parse_with_user:
  "parse_qs fields_with_user =
     [(ustr_of ''user'', [unquote (ustr_of ''%7B%22id%22%3A1%2C%22first_name%22%3A%22A%22%7D'')]),
      (ustr_of ''auth_date'', [ustr_of ''1700000000''])]"
  by code_simp

lemma check_without_user:
  "list_all (\<lambda>c. c < 128) (spec_check_string fields_without_user)"
  by code_simp

lemma check_with_user:
  "list_all (\<lambda>c. c < 128) (spec_check_string fields_with_user)"
  by code_simp

lemma user_of_fields:
  shows "first_value (parse_qs fields_with_user) ''user''
     = Some (unquote (ustr_of ''%7B%22id%22%3A1%2C%22first_name%22%3A%22A%22%7D''))"
  and "first_value (parse_qs fields_without_user) ''user'' = None"
  and "ustr_of ''hash'' \<notin> fst ` set (parse_qsl fields_with_user)"
  and "ustr_of ''hash'' \<notin> fst ` set (parse_qsl fields_without_user)"
  unfolding parse_qs_keys [symmetric] parse_with_user parse_without_user
  by (simp_all add: first_value_def ustr_of_def)

lemma user_text:
  shows "unquote (unquote (ustr_of ''%7B%22id%22%3A1%2C%22first_name%22%3A%22A%22%7D''))
     = unquote (ustr_of ''%7B%22id%22%3A1%2C%22first_name%22%3A%22A%22%7D'')"
  and "unquote (ustr_of ''%7B%22id%22%3A1%2C%22first_name%22%3A%22A%22%7D'') \<noteq> []"
  by code_simp+

lemma sample_token_ascii: "list_all (\<lambda>c. c < 128) sample_token"
  by (simp add: sample_token_def ustr_of_def)
















section \<open>Self-follow\<close>

text \<open>
  C6. A follow toggle whose caller is its own target is answered with the error
  "Cannot follow yourself" (status 400), and the database after the request is the
  database before it: no follow row is written or removed. The caller is any integer
  that \<open>int\<close> reads from the header.
\<close>

theorem toggle_follow_self_rejected:
  assumes "x_user_id req = Some h" and "py_int h = Some uid"
  shows "toggle_follow now uid req d = (Inl (JsonError 400 ''Cannot follow yourself''), d)"
proof -
  from assms have "h \<noteq> []"
    by (auto simp: py_int_def)
  with assms show ?thesis
    by (simp add: toggle_follow_def or_empty_def)
qed

theorem toggle_follow_self_rejected_witness:
  "toggle_follow 700 1 (request_of_alice [] JNull) sample_db =
     (Inl (JsonError 400 ''Cannot follow yourself''), sample_db)"
  using toggle_follow_self_rejected [of "request_of_alice [] JNull" "ustr_of ''1''" 1 700 sample_db]
  by (simp add: request_of_alice_def py_int_one)

section \<open>Bio update\<close>

text \<open>
  C7 (as stated). The claim is about every input string. A string with a lone surrogate
  among its first 160 characters cannot be bound to the column: the request is answered
  with an internal error and the database is unchanged.
\<close>

theorem update_profile_surrogate_counterexample:
  "update_profile 900 (request_of_alice [] (JObj [(ustr_of ''bio'', JStr [55296])])) sample_db
     = (Inl Uncaught, sample_db)"
  using py_int_nonempty [OF py_int_one]
  by (simp add: update_profile_def request_of_alice_def or_empty_def py_int_one get_user_alice
      has_bio_def bio_of_def sql_text_def)

text \<open>
  C7 (amended). For an existing caller and a body that holds a string under \<open>bio\<close>
  whose first 160 characters hold no lone surrogate, the profile update is never
  rejected for the length of the string: it is answered with the user view, and the
  caller's row then holds the first 160 characters of the string (of a string of 200
  characters, exactly its first 160).
\<close>

theorem update_profile_truncates_bio:
  assumes "x_user_id req = Some h" and "py_int h = Some uid"
    and "get_or_404 User_id (users d) uid = Inr usr"
    and "json req = Inr (JObj kvs)" and "map_of kvs (ustr_of ''bio'') = Some (JStr s)"
    and "sql_text (take 160 s)"
  shows "\<exists>v d'. update_profile now req d = (Inr v, d')
           \<and> get_user d' uid = Some (usr\<lparr>User_bio := Some (take 160 s), User_updated_at := now\<rparr>)
           \<and> uv_bio v = take 160 s"
proof -
  from assms(2) have ne: "h \<noteq> []" by (rule py_int_nonempty)
  from assms(3) have range: "sql_int uid" and row: "get_user d uid = Some usr"
    by (simp_all add: get_or_404_found get_user_def)
  let ?f = "\<lambda>r. r\<lparr>User_bio := Some (take 160 s), User_updated_at := now\<rparr>"
  from serialize_user_in_range [OF range, of "update_user uid ?f d" "?f usr"]
  obtain v where v: "serialize_user (update_user uid ?f d) (?f usr) (Some uid) = Inr v"
    and bio: "uv_bio v = take 160 s"
    by (auto simp: or_empty_def)
  have "update_profile now req d = (Inr v, update_user uid ?f d)"
    using assms ne v
    by (simp add: update_profile_def or_empty_def has_bio_def bio_of_def Let_def)
  moreover have "get_user (update_user uid ?f d) uid = Some (?f usr)"
    using row by (simp add: get_user_update_user)
  ultimately show ?thesis
    using bio by blast
qed

theorem update_profile_truncates_bio_witness:
  "\<exists>v d'. update_profile 900
             (request_of_alice [] (JObj [(ustr_of ''bio'', JStr (replicate 200 120))])) sample_db
           = (Inr v, d')
         \<and> get_user d' 1 = Some (alice\<lparr>User_bio := Some (replicate 160 120), User_updated_at := 900\<rparr>)
         \<and> uv_bio v = replicate 160 120"
  using update_profile_truncates_bio
    [of "request_of_alice [] (JObj [(ustr_of ''bio'', JStr (replicate 200 120))])"
        "ustr_of ''1''" 1 sample_db alice "[(ustr_of ''bio'', JStr (replicate 200 120))]"
        "replicate 200 120" 900]
  by (simp add: request_of_alice_def py_int_one get_user_alice sql_text_def list_all_iff)

section \<open>Frame of the profile update\<close>

text \<open>
  C10. Whatever the request and its body, a profile update leaves the posts, likes,
  comments and follows as they were, and every user row keeps all its columns but
  \<open>bio\<close> and \<open>updated_at\<close>; a row that is not the caller's is not changed at all.
\<close>

theorem update_profile_frame:
  "profile_frame (py_int (or_empty (x_user_id req))) d (snd (update_profile now req d))"
  by (auto simp: update_profile_def Let_def profile_frame_refl intro!: profile_frame_update
      split: option.splits sum.splits bool.splits)

theorem update_profile_frame_witness:
  "profile_frame (Some 1) sample_db
     (snd (update_profile 900
        (request_of_alice []
           (JObj [(ustr_of ''first_name'', JStr (ustr_of ''Mallory'')),
                  (ustr_of ''bio'', JStr (ustr_of ''new''))])) sample_db))
   \<and> users (snd (update_profile 900
        (request_of_alice []
           (JObj [(ustr_of ''first_name'', JStr (ustr_of ''Mallory'')),
                  (ustr_of ''bio'', JStr (ustr_of ''new''))])) sample_db))
       = [alice\<lparr>User_bio := Some (ustr_of ''new''), User_updated_at := 900\<rparr>, bob]"
proof -
  have frame: "profile_frame (Some 1) sample_db
     (snd (update_profile 900
        (request_of_alice []
           (JObj [(ustr_of ''first_name'', JStr (ustr_of ''Mallory'')),
                  (ustr_of ''bio'', JStr (ustr_of ''new''))])) sample_db))"
    using update_profile_frame
      [of "request_of_alice []
             (JObj [(ustr_of ''first_name'', JStr (ustr_of ''Mallory'')),
                    (ustr_of ''bio'', JStr (ustr_of ''new''))])" sample_db 900]
    by (simp add: caller_alice)
  have keys: "ustr_of ''first_name'' \<noteq> ustr_of ''bio''"
    by (simp add: ustr_of_def)
  have bindable: "sql_text (take 160 (ustr_of ''new''))"
    by (simp add: sql_text_def ustr_of_def)
  have step: "snd (update_profile 900
        (request_of_alice []
           (JObj [(ustr_of ''first_name'', JStr (ustr_of ''Mallory'')),
                  (ustr_of ''bio'', JStr (ustr_of ''new''))])) sample_db)
       = update_user 1 (\<lambda>r. r\<lparr>User_bio := Some (take 160 (ustr_of ''new'')), User_updated_at := 900\<rparr>) sample_db"
    using keys bindable py_int_nonempty [OF py_int_one]
    by (simp add: update_profile_def request_of_alice_def or_empty_def py_int_one get_user_alice
          has_bio_def bio_of_def Let_def)
  have rows: "users (snd (update_profile 900
        (request_of_alice []
           (JObj [(ustr_of ''first_name'', JStr (ustr_of ''Mallory'')),
                  (ustr_of ''bio'', JStr (ustr_of ''new''))])) sample_db))
       = [alice\<lparr>User_bio := Some (ustr_of ''new''), User_updated_at := 900\<rparr>, bob]"
    unfolding step
    by (simp add: update_user_def sample_db_def alice_def bob_def ustr_of_def)
  from frame rows show ?thesis by (rule conjI)
qed

section \<open>Length of posts and comments\<close>

text \<open>
  C5 (as stated). The claim names two errors, one for a body that is empty after
  trimming and one for a body of more than 280 characters. The code answers both with
  the same error: the two requests below get the same answer.
\<close>

theorem create_one_error_counterexample:
  "create_post 700 701 (request_of_alice [] (JObj [(ustr_of ''content'', JStr (ustr_of ''  ''))])) sample_db
     = (Inl (JsonError 400 ''Content must be between 1 and 280 characters''), sample_db)
   \<and> create_post 700 701 (request_of_alice [] (JObj [(ustr_of ''content'', JStr (replicate 281 97))])) sample_db
     = (Inl (JsonError 400 ''Content must be between 1 and 280 characters''), sample_db)"
  by (simp add: create_post_def request_of_alice_def or_empty_def content_of_def py_get_def
      strip_replicate_a, simp add: ustr_of_def strip_def isspace_def)

text \<open>
  C5 (amended). For a request with a non-empty \<open>X-User-ID\<close> header and an object body
  whose \<open>content\<close> is a string: when the trimmed content is empty or longer than 280
  characters, post and comment creation answer the same error (status 400) and write
  nothing. When the trimmed content has between 1 and 280 characters (280 included) and
  no lone surrogate, the header reads as the id of an existing account, the next key of
  the table fits 64 bits and, for a post, the image reference is absent, null or a text
  without lone surrogate, for a comment, the post exists: the new row is appended with
  the trimmed content and its view is returned.
\<close>

theorem create_validates_content:
  assumes "or_empty (x_user_id req) \<noteq> []" and "json req = Inr (JObj kvs)"
    and "map_of kvs (ustr_of ''content'') = Some (JStr s)"
  shows "(strip s = [] \<or> 280 < length (strip s) \<longrightarrow>
            create_post created updated req d = (Inl content_error, d)
          \<and> create_comment created updated pid req d = (Inl content_error, d))
       \<and> (strip s \<noteq> [] \<and> length (strip s) \<le> 280 \<and> sql_text (strip s)
            \<and> py_int (or_empty (x_user_id req)) = Some uid
            \<and> get_or_404 User_id (users d) uid = Inr usr
            \<and> sql_int (next_id (map Post_id (posts d)))
            \<and> plain_image_url (map_of kvs (ustr_of ''image_url'')) url \<longrightarrow>
            (\<exists>v. create_post created updated req d
                   = (Inr v, d\<lparr>posts := posts d @ [new_post created updated uid (strip s) url d]\<rparr>)
                 \<and> pv_content v = strip s \<and> pv_id v = next_id (map Post_id (posts d))))
       \<and> (strip s \<noteq> [] \<and> length (strip s) \<le> 280 \<and> sql_text (strip s)
            \<and> py_int (or_empty (x_user_id req)) = Some uid
            \<and> get_or_404 User_id (users d) uid = Inr usr
            \<and> sql_int (next_id (map Comment_id (comments d)))
            \<and> get_or_404 Post_id (posts d) pid = Inr p \<longrightarrow>
            (\<exists>v. create_comment created updated pid req d
                   = (Inr v, d\<lparr>comments := comments d @ [new_comment created updated uid pid (strip s) d]\<rparr>)
                 \<and> cv_content v = strip s \<and> cv_id v = next_id (map Comment_id (comments d))))"
proof (intro conjI impI)
  assume "strip s = [] \<or> 280 < length (strip s)"
  then show "create_post created updated req d = (Inl content_error, d)"
    by (rule create_post_rejects [OF assms])
next
  assume "strip s = [] \<or> 280 < length (strip s)"
  then show "create_comment created updated pid req d = (Inl content_error, d)"
    by (rule create_comment_rejects [OF assms])
next
  assume "strip s \<noteq> [] \<and> length (strip s) \<le> 280 \<and> sql_text (strip s)
            \<and> py_int (or_empty (x_user_id req)) = Some uid
            \<and> get_or_404 User_id (users d) uid = Inr usr
            \<and> sql_int (next_id (map Post_id (posts d)))
            \<and> plain_image_url (map_of kvs (ustr_of ''image_url'')) url"
  then show "\<exists>v. create_post created updated req d
                   = (Inr v, d\<lparr>posts := posts d @ [new_post created updated uid (strip s) url d]\<rparr>)
                 \<and> pv_content v = strip s \<and> pv_id v = next_id (map Post_id (posts d))"
    using create_post_accepts [OF assms, of uid d usr url created updated] by simp
next
  assume "strip s \<noteq> [] \<and> length (strip s) \<le> 280 \<and> sql_text (strip s)
            \<and> py_int (or_empty (x_user_id req)) = Some uid
            \<and> get_or_404 User_id (users d) uid = Inr usr
            \<and> sql_int (next_id (map Comment_id (comments d)))
            \<and> get_or_404 Post_id (posts d) pid = Inr p"
  then show "\<exists>v. create_comment created updated pid req d
                   = (Inr v, d\<lparr>comments := comments d @ [new_comment created updated uid pid (strip s) d]\<rparr>)
                 \<and> cv_content v = strip s \<and> cv_id v = next_id (map Comment_id (comments d))"
    using create_comment_accepts [OF assms, of uid d usr pid p created updated] by simp
qed

theorem create_validates_content_witness:
  "(\<exists>v. create_post 700 701 (request_of_alice [] (JObj [(ustr_of ''content'', JStr (replicate 280 97))]))
            sample_db
          = (Inr v, sample_db\<lparr>posts := posts sample_db @ [new_post 700 701 1 (replicate 280 97) None sample_db]\<rparr>)
        \<and> pv_content v = replicate 280 97 \<and> pv_id v = 4)
   \<and> (\<exists>v. create_comment 700 701 1 (request_of_alice [] (JObj [(ustr_of ''content'', JStr (replicate 280 97))]))
            sample_db
          = (Inr v, sample_db\<lparr>comments := comments sample_db @ [new_comment 700 701 1 1 (replicate 280 97) sample_db]\<rparr>)
        \<and> cv_content v = replicate 280 97 \<and> cv_id v = 3)
   \<and> create_post 700 701 (request_of_alice [] (JObj [(ustr_of ''content'', JStr (replicate 281 97))]))
        sample_db = (Inl content_error, sample_db)
   \<and> create_comment 700 701 1 (request_of_alice [] (JObj [(ustr_of ''content'', JStr (replicate 281 97))]))
        sample_db = (Inl content_error, sample_db)"
proof -
  have body: "json (request_of_alice [] (JObj kvs)) = Inr (JObj kvs)" for kvs
    by (simp add: request_of_alice_def)
  have header: "or_empty (x_user_id (request_of_alice [] (JObj kvs))) \<noteq> []" for kvs
    using caller_alice [of "[]" "JObj kvs"] by (auto simp: py_int_def)
  have accepted:
    "(\<exists>v. create_post 700 701 (request_of_alice [] (JObj [(ustr_of ''content'', JStr (replicate 280 97))]))
            sample_db
          = (Inr v, sample_db\<lparr>posts := posts sample_db @ [new_post 700 701 1 (replicate 280 97) None sample_db]\<rparr>)
        \<and> pv_content v = replicate 280 97 \<and> pv_id v = 4)
     \<and> (\<exists>v. create_comment 700 701 1 (request_of_alice [] (JObj [(ustr_of ''content'', JStr (replicate 280 97))]))
            sample_db
          = (Inr v, sample_db\<lparr>comments := comments sample_db @ [new_comment 700 701 1 1 (replicate 280 97) sample_db]\<rparr>)
        \<and> cv_content v = replicate 280 97 \<and> cv_id v = 3)"
    using create_validates_content
      [of "request_of_alice [] (JObj [(ustr_of ''content'', JStr (replicate 280 97))])"
          "[(ustr_of ''content'', JStr (replicate 280 97))]" "replicate 280 97"
          700 701 sample_db 1 1 alice None post1]
    by (simp add: caller_alice header body strip_replicate_a sql_text_replicate_a get_user_alice
          get_post_1 key_neq plain_image_url_def sample_next_post sample_next_comment sql_int_small)
  have rejected:
    "create_post 700 701 (request_of_alice [] (JObj [(ustr_of ''content'', JStr (replicate 281 97))]))
        sample_db = (Inl content_error, sample_db)
     \<and> create_comment 700 701 1 (request_of_alice [] (JObj [(ustr_of ''content'', JStr (replicate 281 97))]))
        sample_db = (Inl content_error, sample_db)"
    using create_validates_content
      [of "request_of_alice [] (JObj [(ustr_of ''content'', JStr (replicate 281 97))])"
          "[(ustr_of ''content'', JStr (replicate 281 97))]" "replicate 281 97"
          700 701 sample_db 1 1 alice None post1]
    by (simp add: header body strip_replicate_a)
  from accepted rejected show ?thesis by blast
qed

section \<open>Toggling twice\<close>

text \<open>
  C3. For a caller whose id fits 64 bits: when the caller has no like on an existing
  post, the first like toggle writes exactly one row for the pair and the second one
  removes it, and the database is the original one again. The same holds for the follow
  toggle on an existing target other than the caller, when the caller does not follow it
  yet. (The key of the new row is the next key of the table, which fits 64 bits.)
\<close>

theorem toggle_twice_restores:
  assumes "py_int (or_empty (x_user_id req)) = Some uid" and "sql_int uid"
  shows "(get_or_404 Post_id (posts d) pid = Inr p \<and> first_like d uid pid = None
            \<and> sql_int (next_id (map Like_id (likes d))) \<longrightarrow>
           (\<exists>r1 r2 d1. toggle_like t1 pid req d = (Inr r1, d1) \<and> lr_action r1 = liked
               \<and> length (like_rows uid pid d1) = 1 \<and> like_rows uid pid d = []
               \<and> toggle_like t2 pid req d1 = (Inr r2, d) \<and> lr_action r2 = unliked))
       \<and> (uid \<noteq> tid \<and> get_or_404 User_id (users d) tid = Inr tu \<and> first_follow d uid tid = None
            \<and> sql_int (next_id (map Follow_id (follows d))) \<longrightarrow>
           (\<exists>v1 v2 d1. toggle_follow t1 tid req d = (Inr (followed, v1), d1)
               \<and> length (follow_rows uid tid d1) = 1 \<and> follow_rows uid tid d = []
               \<and> toggle_follow t2 tid req d1 = (Inr (unfollowed, v2), d)))"
proof (intro conjI impI)
  assume a: "get_or_404 Post_id (posts d) pid = Inr p \<and> first_like d uid pid = None
               \<and> sql_int (next_id (map Like_id (likes d)))"
  then have none: "like_rows uid pid d = []"
    by (simp add: like_rows_def first_like_def filter_none)
  then have one: "length (like_rows uid pid (d\<lparr>likes := likes d @ [new_like t1 uid pid d]\<rparr>)) = 1"
    by (simp add: like_rows_def new_like_def)
  from a toggle_like_adds [OF assms, of d pid p t1] toggle_like_removes [OF assms, of d pid p t2 t1]
    none one
  show "\<exists>r1 r2 d1. toggle_like t1 pid req d = (Inr r1, d1) \<and> lr_action r1 = liked
               \<and> length (like_rows uid pid d1) = 1 \<and> like_rows uid pid d = []
               \<and> toggle_like t2 pid req d1 = (Inr r2, d) \<and> lr_action r2 = unliked"
    by blast
next
  assume a: "uid \<noteq> tid \<and> get_or_404 User_id (users d) tid = Inr tu \<and> first_follow d uid tid = None
               \<and> sql_int (next_id (map Follow_id (follows d)))"
  then have none: "follow_rows uid tid d = []"
    by (simp add: follow_rows_def first_follow_def filter_none)
  then have one: "length (follow_rows uid tid (d\<lparr>follows := follows d @ [new_follow t1 uid tid d]\<rparr>)) = 1"
    by (simp add: follow_rows_def new_follow_def)
  from a toggle_follow_adds [OF assms, of tid d tu t1]
    toggle_follow_removes [OF assms, of tid d tu t2 t1] none one
  show "\<exists>v1 v2 d1. toggle_follow t1 tid req d = (Inr (followed, v1), d1)
               \<and> length (follow_rows uid tid d1) = 1 \<and> follow_rows uid tid d = []
               \<and> toggle_follow t2 tid req d1 = (Inr (unfollowed, v2), d)"
    by blast
qed

theorem toggle_twice_restores_witness:
  "(\<exists>r1 r2 d1. toggle_like 700 1 (request_of_alice [] JNull) sample_db = (Inr r1, d1)
        \<and> lr_action r1 = liked \<and> length (like_rows 1 1 d1) = 1 \<and> like_rows 1 1 sample_db = []
        \<and> toggle_like 800 1 (request_of_alice [] JNull) d1 = (Inr r2, sample_db)
        \<and> lr_action r2 = unliked)
   \<and> (\<exists>v1 v2 d1. toggle_follow 700 2 (request_of_alice [] JNull) sample_db = (Inr (followed, v1), d1)
        \<and> length (follow_rows 1 2 d1) = 1 \<and> follow_rows 1 2 sample_db = []
        \<and> toggle_follow 800 2 (request_of_alice [] JNull) d1 = (Inr (unfollowed, v2), sample_db))"
proof -
  have l: "first_like sample_db 1 1 = None"
    by (simp add: first_like_def sample_db_def like1_def like2_def like3_def)
  have f: "first_follow sample_db 1 2 = None"
    by (simp add: first_follow_def sample_db_def)
  show ?thesis
    using toggle_twice_restores [OF caller_alice sql_int_one, of sample_db 1 post1 700 "[]" JNull 800 2 bob]
    by (simp add: l f get_post_1 get_user_bob sample_next_like sample_next_follow sql_int_small sql_int_one)
qed

section \<open>The following feed without a viewer\<close>

text \<open>
  C2 (as stated). The claim says that the feed with filter \<open>following\<close> and no viewer
  is empty. On the sample database the request gets the three posts, newest first.
\<close>

theorem following_feed_counterexample:
  "map_sum id (\<lambda>r. map pv_id (fr_posts r))
     (get_posts (anonymous_request [(ustr_of ''filter'', ustr_of ''following'')] JNull) sample_db)
   = Inr [3, 2, 1]"
proof -
  obtain v1 v2 v3 where
    "serialize_post sample_db post1 None = Inr v1" "pv_id v1 = 1"
    "serialize_post sample_db post2 None = Inr v2" "pv_id v2 = 2"
    "serialize_post sample_db post3 None = Inr v3" "pv_id v3 = 3"
    using serialize_post_id [OF sample_authors(1)]
      serialize_post_id [OF sample_authors(2)]
      serialize_post_id [OF sample_authors(3)]
    by (auto simp: sample_post_ids)
  then show ?thesis
    by (simp add: get_posts_def anonymous_viewer following_args
        feed_query_def truthy_def ustr_of_inject sample_latest first_page)
qed

text \<open>
  C2 (amended). For every page and page size, the feed with filter \<open>following\<close> and no
  viewer (a missing or empty \<open>X-User-ID\<close> header) is the answer to the same request
  with filter \<open>latest\<close>: its query is all posts, newest first.
\<close>

theorem following_without_viewer_is_latest:
  assumes "or_empty (x_user_id req) = []" and "filter_arg req = ustr_of ''following''"
  shows "get_posts req d
           = get_posts (req\<lparr>args := (ustr_of ''filter'', ustr_of ''latest'') # args req\<rparr>) d
       \<and> feed_query (filter_arg req) None d = Inr (newest_first Post_created_at (posts d))"
proof -
  let ?req' = "req\<lparr>args := (ustr_of ''filter'', ustr_of ''latest'') # args req\<rparr>"
  have v: "viewer_of req = Inr None" "viewer_of ?req' = Inr None"
    using assms(1) by (simp_all add: viewer_of_def)
  have a: "int_arg ?req' ''page'' n = int_arg req ''page'' n"
    "int_arg ?req' ''per_page'' n = int_arg req ''per_page'' n" for n
    by (simp_all add: int_arg_def ustr_of_inject)
  have f: "filter_arg ?req' = ustr_of ''latest''"
    by (simp add: filter_arg_def)
  have q: "feed_query (ustr_of ''following'') None d = Inr (newest_first Post_created_at (posts d))"
    "feed_query (ustr_of ''latest'') None d = Inr (newest_first Post_created_at (posts d))"
    by (simp_all add: feed_query_def truthy_def ustr_of_inject)
  show ?thesis
    by (simp add: get_posts_def v a f q assms(2) cong: sum.case_cong)
qed

theorem following_without_viewer_is_latest_witness:
  "get_posts (anonymous_request [(ustr_of ''filter'', ustr_of ''following'')] JNull) sample_db
     = get_posts (anonymous_request [(ustr_of ''filter'', ustr_of ''latest''),
                                     (ustr_of ''filter'', ustr_of ''following'')] JNull) sample_db
   \<and> feed_query (ustr_of ''following'') None sample_db = Inr [post3, post2, post1]"
  using following_without_viewer_is_latest
    [of "anonymous_request [(ustr_of ''filter'', ustr_of ''following'')] JNull" sample_db]
  by (simp add: following_args sample_latest) (simp add: anonymous_request_def or_empty_def)

section \<open>Listing comments\<close>

text \<open>
  C9. Whenever the comment list of a post is answered, its views show exactly the
  comments of the post (each once), ordered by creation time, newest first.
\<close>

theorem get_comments_newest_first:
  assumes "get_comments pid req d = Inr (pv, cvs)"
  shows "\<exists>cs. mset cs = mset (filter (\<lambda>c. Comment_post_id c = pid) (comments d))
           \<and> list_all2 shows_comment cs cvs
           \<and> sorted_wrt (\<lambda>a b. cv_created_at b \<le> cv_created_at a) cvs"
proof -
  define cs where "cs = newest_first Comment_created_at
                          (filter (\<lambda>c. Comment_post_id c = pid) (comments d))"
  from get_comments_views [OF assms] obtain cur where
    cvs: "serialize_all (\<lambda>c. serialize_comment d c cur) cs = Inr cvs"
    unfolding cs_def by blast
  have rel: "list_all2 shows_comment cs cvs"
    using serialize_all_pointwise [OF cvs]
    by (rule list_all2_mono) (rule serialize_comment_shows)
  have "sorted_wrt (\<lambda>a b. Comment_created_at b \<le> Comment_created_at a) cs"
    unfolding cs_def by (rule newest_first_sorted)
  with rel have ordered: "sorted_wrt (\<lambda>a b. cv_created_at b \<le> cv_created_at a) cvs"
    by (rule sorted_wrt_related) (simp add: shows_comment_def)
  have "mset cs = mset (filter (\<lambda>c. Comment_post_id c = pid) (comments d))"
    by (simp add: cs_def newest_first_mset)
  with rel ordered show ?thesis by blast
qed

theorem get_comments_newest_first_witness:
  "\<exists>pv cvs cs. get_comments 1 (anonymous_request [] JNull) sample_db = Inr (pv, cvs)
       \<and> map cv_id cvs = [2, 1]
       \<and> mset cs = mset [comment1, comment2]
       \<and> list_all2 shows_comment cs cvs
       \<and> sorted_wrt (\<lambda>a b. cv_created_at b \<le> cv_created_at a) cvs"
proof -
  obtain pv where pv: "serialize_post sample_db post1 None = Inr pv"
    using serialize_post_id [OF sample_authors(1)] by blast
  obtain v1 v2 where v:
    "serialize_comment sample_db comment1 None = Inr v1" "cv_id v1 = 1"
    "serialize_comment sample_db comment2 None = Inr v2" "cv_id v2 = 2"
    using serialize_comment_id [OF sample_commenters(1)] serialize_comment_id [OF sample_commenters(2)]
    by (auto simp: comment1_def comment2_def)
  have run: "get_comments 1 (anonymous_request [] JNull) sample_db = Inr (pv, [v2, v1])"
    using pv v by (simp add: get_comments_def anonymous_viewer get_post_1 sample_comments_of_post1
        sample_comments_sorted)
  from get_comments_newest_first [OF run] v run show ?thesis
    by (auto simp: sample_comments_of_post1)
qed

section \<open>The trending feed\<close>

text \<open>
  C4. In every database whose posts have distinct primary keys, every post of an
  answered trending feed has at least one like, and the posts are ordered by like count,
  largest first, and for equal counts by creation time, newest first.
\<close>

theorem trending_feed:
  assumes "distinct (map Post_id (posts d))" and "filter_arg req = ustr_of ''trending''"
    and "get_posts req d = Inr r"
  shows "(\<forall>v\<in>set (fr_posts r). 0 < pv_likes_count v)
       \<and> sorted_wrt (\<lambda>a b. hotter (pv_likes_count a, pv_created_at a) (pv_likes_count b, pv_created_at b))
           (fr_posts r)"
proof -
  from get_posts_views [OF assms(3)] obtain cur page per_page rows pg where
    rows: "feed_query (filter_arg req) cur d = Inr rows"
    and pg: "paginate page per_page rows = Inr pg"
    and views: "serialize_all (\<lambda>p. serialize_post d p cur) (pg_items pg) = Inr (fr_posts r)"
    by blast
  from rows have q: "rows = trending_query d"
    by (simp add: assms(2) feed_query_def ustr_of_inject)
  from page_of_rows [OF pg]
  obtain m n where items: "pg_items pg = take m (drop n (trending_query d))"
    unfolding q by blast
  have rel: "list_all2 (\<lambda>p v. serialize_post d p cur = Inr v) (pg_items pg) (fr_posts r)"
    using views by (rule serialize_all_pointwise)
  have sub: "set (pg_items pg) \<subseteq> set (trending_query d)"
    unfolding items using set_take_subset set_drop_subset by fast
  have "sorted_wrt (\<lambda>a b. hotter (likes_count d a, Post_created_at a) (likes_count d b, Post_created_at b))
          (pg_items pg)"
    unfolding items
    by (intro sorted_wrt_take sorted_wrt_drop trending_query_sorted [OF assms(1)])
  with rel have ordered: "sorted_wrt (\<lambda>a b. hotter (pv_likes_count a, pv_created_at a) (pv_likes_count b, pv_created_at b)) (fr_posts r)"
    by (rule sorted_wrt_related) (rule hotter_views)
  have "0 < pv_likes_count v" if "v \<in> set (fr_posts r)" for v
  proof -
    from rel that obtain p where p: "p \<in> set (pg_items pg)" and v: "serialize_post d p cur = Inr v"
      by (rule list_all2_source)
    from p sub have "0 < likes_count d p"
      using trending_query_member [OF assms(1), of p] by blast
    with serialize_post_shows [OF v] show ?thesis
      by simp
  qed
  with ordered show ?thesis by blast
qed

theorem trending_feed_witness:
  "\<exists>r. get_posts (anonymous_request [(ustr_of ''filter'', ustr_of ''trending'')] JNull) sample_db = Inr r
     \<and> map pv_id (fr_posts r) = [2, 1] \<and> map pv_likes_count (fr_posts r) = [2, 1]
     \<and> (\<forall>v\<in>set (fr_posts r). 0 < pv_likes_count v)
     \<and> sorted_wrt (\<lambda>a b. hotter (pv_likes_count a, pv_created_at a) (pv_likes_count b, pv_created_at b))
           (fr_posts r)"
proof -
  obtain v1 v2 where v:
    "serialize_post sample_db post1 None = Inr v1" "pv_id v1 = 1"
    "serialize_post sample_db post2 None = Inr v2" "pv_id v2 = 2"
    using serialize_post_id [OF sample_authors(1)]
      serialize_post_id [OF sample_authors(2)]
    by (auto simp: sample_post_ids)
  have counts: "likes_count sample_db post1 = 1" "likes_count sample_db post2 = 2"
    by (simp_all add: likes_count_def sample_db_def post1_def post2_def like1_def like2_def like3_def)
  with v have n: "pv_likes_count v1 = 1" "pv_likes_count v2 = 2"
    using serialize_post_shows [of sample_db post1 None v1]
      serialize_post_shows [of sample_db post2 None v2] by simp_all
  define r where "r = \<lparr> fr_posts = [v2, v1], fr_has_next = False, fr_has_prev = False,
      fr_page = 1, fr_pages = 1, fr_total = 2 \<rparr>"
  have run: "get_posts (anonymous_request [(ustr_of ''filter'', ustr_of ''trending'')] JNull) sample_db = Inr r"
    using v by (simp add: get_posts_def anonymous_viewer trending_args feed_query_def ustr_of_inject
        sample_trending first_page r_def)
  from trending_feed [OF sample_post_keys trending_args(1) run] v n run
  show ?thesis
    by (auto simp: r_def)
qed

section \<open>Signature of the payload\<close>

text \<open>
  C1 (as stated). The claim says that verification succeeds as soon as the recomputed
  signature equals the \<open>hash\<close> field. The payload below holds the field
  \<open>auth_date=1700000000\<close> and, in its \<open>hash\<close> field, the signature of the payload
  under the secret \<open>S\<close>; it has no \<open>user\<close> field, and verification fails.
\<close>

theorem validate_needs_user_counterexample:
  "(\<exists>h. first_value (parse_qs (signed fields_without_user sample_token)) ''hash'' = Some h
        \<and> spec_signature (signed fields_without_user sample_token) sample_token = Some h)
   \<and> validate_telegram_data Some (signed fields_without_user sample_token) sample_token = None"
proof -
  obtain h where h: "spec_signature fields_without_user sample_token = Some h"
    using spec_signature_ascii [OF sample_token_ascii check_without_user] ..
  have a: "first_value (parse_qs (signed fields_without_user sample_token)) ''hash'' = Some h"
    using user_of_fields(4) h by (rule signed_hash)
  have b: "spec_signature (signed fields_without_user sample_token) sample_token = Some h"
    using user_of_fields(4) h by (rule signed_signature)
  have "first_value (parse_qs (signed fields_without_user sample_token)) ''user'' = None"
    using signed_other [OF user_of_fields(4) h, of "''user''"] by (simp add: user_of_fields(2))
  then have "validate_telegram_data Some (signed fields_without_user sample_token) sample_token = None"
    by (simp add: validate_of_signature [OF a b])
  with a b show ?thesis
    by simp
qed

text \<open>
  C1 (amended). Verification returns a value \<open>v\<close> exactly when the payload has a
  \<open>hash\<close> field whose first value equals the signature recomputed as the specification
  describes, and a \<open>user\<close> field whose first value is not empty and, URL-decoded once
  more, is a text that \<open>json.loads\<close> parses to \<open>v\<close>, a value other than \<open>None\<close>. In
  particular a payload with no \<open>hash\<close> field, or whose \<open>hash\<close> differs from the
  signature in any character, fails.
\<close>

theorem validate_succeeds_iff:
  "validate_telegram_data json_loads init_data bot_token = Some v \<longleftrightarrow>
     (\<exists>h u. first_value (parse_qs init_data) ''hash'' = Some h
        \<and> spec_signature init_data bot_token = Some h
        \<and> first_value (parse_qs init_data) ''user'' = Some u \<and> u \<noteq> []
        \<and> json_loads (unquote u) = Some v)"
proof
  assume "validate_telegram_data json_loads init_data bot_token = Some v"
  then show "\<exists>h u. first_value (parse_qs init_data) ''hash'' = Some h
        \<and> spec_signature init_data bot_token = Some h
        \<and> first_value (parse_qs init_data) ''user'' = Some u \<and> u \<noteq> []
        \<and> json_loads (unquote u) = Some v"
    by (rule validate_some)
next
  assume "\<exists>h u. first_value (parse_qs init_data) ''hash'' = Some h
        \<and> spec_signature init_data bot_token = Some h
        \<and> first_value (parse_qs init_data) ''user'' = Some u \<and> u \<noteq> []
        \<and> json_loads (unquote u) = Some v"
  then obtain h u where "first_value (parse_qs init_data) ''hash'' = Some h"
    and "spec_signature init_data bot_token = Some h"
    and "first_value (parse_qs init_data) ''user'' = Some u" and "u \<noteq> []"
    and "json_loads (unquote u) = Some v"
    by blast
  then show "validate_telegram_data json_loads init_data bot_token = Some v"
    using validate_of_signature [of init_data h bot_token json_loads] by simp
qed

theorem validate_succeeds_iff_witness:
  "validate_telegram_data Some (signed fields_with_user sample_token) sample_token
     = Some (unquote (ustr_of ''%7B%22id%22%3A1%2C%22first_name%22%3A%22A%22%7D''))"
proof -
  obtain h where h: "spec_signature fields_with_user sample_token = Some h"
    using spec_signature_ascii [OF sample_token_ascii check_with_user] ..
  have "first_value (parse_qs (signed fields_with_user sample_token)) ''hash'' = Some h"
    using user_of_fields(3) h by (rule signed_hash)
  moreover have "spec_signature (signed fields_with_user sample_token) sample_token = Some h"
    using user_of_fields(3) h by (rule signed_signature)
  moreover have "first_value (parse_qs (signed fields_with_user sample_token)) ''user''
      = Some (unquote (ustr_of ''%7B%22id%22%3A1%2C%22first_name%22%3A%22A%22%7D''))"
    using signed_other [OF user_of_fields(3) h, of "''user''"] by (simp add: user_of_fields(1))
  ultimately show ?thesis
    using validate_succeeds_iff [of Some "signed fields_with_user sample_token" sample_token
        "unquote (ustr_of ''%7B%22id%22%3A1%2C%22first_name%22%3A%22A%22%7D'')"]
    by (simp add: user_text)
qed

section \<open>Order of the fields\<close>



end
